theory Spec2Isabelle
  imports Complex_Main
begin

section \<open>Numbers\<close>

text \<open>
  The scene is written in TypeScript: every number is an IEEE double. Three models are used.
  \<^item> The state of the pseudo-random generator is an integer below \<open>2^31\<close>, and every product
    the generator forms is below \<open>2^46\<close>, so the doubles hold these integers exactly: the
    state is an \<^typ>\<open>int\<close>, and \<open>%\<close> is the remainder that takes the sign of the dividend.
  \<^item> The progress of the animation is computed in doubles: a double is a \<^typ>\<open>real\<close> that
    \<open>rd\<close> leaves as it is, and each operation that leads from the clock to the eased
    progress rounds its exact result with \<open>rd\<close>, to the nearest double, to the even one of
    two that are equally near. Results beyond the largest double do not occur there and
    are not modelled.
  \<^item> Coordinates, angles and the numbers drawn for the scenery are \<^typ>\<open>real\<close>: rounding is
    not modelled there.
\<close>

definition round_even :: "real \<Rightarrow> int" where
  "round_even q =
     (let f = \<lfloor>q\<rfloor>
      in if q - real_of_int f < 1 / 2 then f
         else if q - real_of_int f > 1 / 2 then f + 1
         else if even f then f else f + 1)"

definition rd :: "real \<Rightarrow> real" where
  \<comment> \<open>53 significant bits; below \<open>2^-1022\<close> the spacing stays \<open>2^-1074\<close>\<close>
  "rd x =
     (if x = 0 then 0
      else (let e = max \<lfloor>log 2 \<bar>x\<bar>\<rfloor> (- 1022); u = 2 powr (real_of_int e - 52)
            in real_of_int (round_even (x / u)) * u))"

definition fadd :: "real \<Rightarrow> real \<Rightarrow> real" where
  "fadd a b = rd (a + b)"

definition fsub :: "real \<Rightarrow> real \<Rightarrow> real" where
  "fsub a b = rd (a - b)"

definition fmul :: "real \<Rightarrow> real \<Rightarrow> real" where
  "fmul a b = rd (a * b)"

definition fdiv :: "real \<Rightarrow> real \<Rightarrow> real" where
  \<comment> \<open>for a divisor that is not zero\<close>
  "fdiv a b = rd (a / b)"

definition js_rem :: "int \<Rightarrow> int \<Rightarrow> int" where
  \<comment> \<open>\<open>a % b\<close> on integral numbers: truncated division, the result has the sign of \<open>a\<close>.\<close>
  "js_rem a b = (if a < 0 then - ((- a) mod \<bar>b\<bar>) else a mod \<bar>b\<bar>)"

section \<open>createRandom\<close>

text \<open>
  \<^verbatim>\<open>
  function createRandom(seed: number) {
    let value = seed % 2147483647;
    if (value <= 0) { value += 2147483646; }
    return () => {
      value = (value * 16807) % 2147483647;
      return (value - 1) / 2147483646;
    };
  }
  \<close>
  The closure owns the variable \<open>value\<close>. \<open>createRandom\<close> gives its first content, and a
  call of the closure, \<open>rand\<close>, takes the content and returns the number with the new content.
\<close>

definition createRandom :: "int \<Rightarrow> int" where
  "createRandom seed =
     (let value = js_rem seed 2147483647
      in if value \<le> 0 then value + 2147483646 else value)"

definition rand :: "int \<Rightarrow> real \<times> int" where
  "rand value =
     (let value' = js_rem (value * 16807) 2147483647
      in ((real_of_int value' - 1) / 2147483646, value'))"

section \<open>Vectors and the library\<close>

text \<open>
  Modelled from the spec: the claims name \<open>clamp\<close>, \<open>smootherstep\<close> and \<open>getPointAt\<close> of the
  three.js library, which the scene imports and which is not among the sources. Its
  arithmetic on vectors and the functions of \<open>THREE.MathUtils\<close> are written out as the library
  defines them; the evaluation of a curve, the look-at rotations and the matrix product are
  parameters of the model, the record \<open>Three\<close> below. \<open>smootherstep\<close> computes the progress
  and rounds after each operation:
  \<^verbatim>\<open>
  function smootherstep( x, min, max ) {
    if ( x <= min ) return 0;
    if ( x >= max ) return 1;
    x = ( x - min ) / ( max - min );
    return x * x * x * ( x * ( x * 6 - 15 ) + 10 );
  }
  \<close>
\<close>

datatype Vector3 = Vector3 (vx: real) (vy: real) (vz: real)

datatype Euler = Euler (ex: real) (ey: real) (ez: real)

type_synonym Matrix4 = "real list"

definition add_v :: "Vector3 \<Rightarrow> Vector3 \<Rightarrow> Vector3" where
  "add_v a b = Vector3 (vx a + vx b) (vy a + vy b) (vz a + vz b)"

definition sub_v :: "Vector3 \<Rightarrow> Vector3 \<Rightarrow> Vector3" where
  "sub_v a b = Vector3 (vx a - vx b) (vy a - vy b) (vz a - vz b)"

definition multiplyScalar :: "Vector3 \<Rightarrow> real \<Rightarrow> Vector3" where
  "multiplyScalar a k = Vector3 (vx a * k) (vy a * k) (vz a * k)"

definition addScaledVector :: "Vector3 \<Rightarrow> Vector3 \<Rightarrow> real \<Rightarrow> Vector3" where
  "addScaledVector a b k = Vector3 (vx a + vx b * k) (vy a + vy b * k) (vz a + vz b * k)"

definition length_v :: "Vector3 \<Rightarrow> real" where
  "length_v a = sqrt (vx a * vx a + vy a * vy a + vz a * vz a)"

definition normalize :: "Vector3 \<Rightarrow> Vector3" where
  \<comment> \<open>\<open>divideScalar(this.length() || 1)\<close>: the zero vector stays as it is.\<close>
  "normalize a = multiplyScalar a (1 / (if length_v a = 0 then 1 else length_v a))"

definition lerp_v :: "Vector3 \<Rightarrow> Vector3 \<Rightarrow> real \<Rightarrow> Vector3" where
  \<comment> \<open>\<open>this.x += (v.x - this.x) * alpha\<close>, and so for \<open>y\<close> and \<open>z\<close>.\<close>
  "lerp_v a v alpha =
     Vector3 (vx a + (vx v - vx a) * alpha) (vy a + (vy v - vy a) * alpha)
       (vz a + (vz v - vz a) * alpha)"

definition clamp :: "real \<Rightarrow> real \<Rightarrow> real \<Rightarrow> real" where
  \<comment> \<open>\<open>clamp(value, min, max)\<close>\<close>
  "clamp v lo hi = max lo (min hi v)"

definition smootherstep :: "real \<Rightarrow> real \<Rightarrow> real \<Rightarrow> real" where
  \<comment> \<open>\<open>smootherstep(x, min, max)\<close>\<close>
  "smootherstep x lo hi =
     (if x \<le> lo then 0
      else if x \<ge> hi then 1
      else (let u = fdiv (fsub x lo) (fsub hi lo)
            in fmul (fmul (fmul u u) u) (fadd (fmul u (fsub (fmul u 6) 15)) 10)))"

definition lerp :: "real \<Rightarrow> real \<Rightarrow> real \<Rightarrow> real" where
  "lerp a b t = (1 - t) * a + t * b"

definition atan2 :: "real \<Rightarrow> real \<Rightarrow> real" where
  \<comment> \<open>\<open>Math.atan2(y, x)\<close>, signed zeros apart.\<close>
  "atan2 b a =
     (if a > 0 then arctan (b / a)
      else if a < 0 then (if b \<ge> 0 then arctan (b / a) + pi else arctan (b / a) - pi)
      else if b > 0 then pi / 2 else if b < 0 then - pi / 2 else 0)"

record CatmullRomCurve3 =
  points :: "Vector3 list"
  closed :: bool
  curveType :: string
  tension :: real

record Three =
  getPointAt :: "CatmullRomCurve3 \<Rightarrow> real \<Rightarrow> Vector3"
  getTangentAt :: "CatmullRomCurve3 \<Rightarrow> real \<Rightarrow> Vector3"
  lookAt_object :: "Vector3 \<Rightarrow> Vector3 \<Rightarrow> Euler"
  lookAt_camera :: "Vector3 \<Rightarrow> Vector3 \<Rightarrow> Euler"
  lookAt_matrix :: "Matrix4 \<Rightarrow> Vector3 \<Rightarrow> Vector3 \<Rightarrow> Vector3 \<Rightarrow> Matrix4"
  applyMatrix4 :: "Vector3 \<Rightarrow> Matrix4 \<Rightarrow> Vector3"
  computeVertexNormals :: "real list \<Rightarrow> real list"

text \<open>
  \<open>lookAt_object p t\<close> and \<open>lookAt_camera p t\<close> are the rotation \<open>Object3D.lookAt(t)\<close> gives an
  object, respectively a camera, that stands at \<open>p\<close>; \<open>lookAt_matrix m eye target up\<close> is
  \<open>m.lookAt(eye, target, up)\<close>, and \<open>applyMatrix4 v m\<close> is \<open>v.applyMatrix4(m)\<close>.
\<close>

section \<open>The animation driver\<close>

text \<open>
  \<open>SceneContent\<close> keeps its mutable data in refs and memoised objects; the road and the
  scattered scenery are built once by their own components. The record \<open>Scene\<close> is the store
  that the callback of \<open>useFrame\<close> runs on. The calls of \<open>onProgress\<close> are logged in
  \<open>reported\<close>, oldest first.
\<close>

record Object3D =
  position :: Vector3
  rotation :: Euler

record Geometry =
  position_attr :: "real list"
  normal_attr :: "real list"
  uv_attr :: "real list"

record Instance =
  inst_position :: Vector3
  inst_scale :: Vector3
  inst_rotation_y :: real

record Scene =
  jaxRef :: "Object3D option"
  ninoRef :: "Object3D option"
  toolBagRef :: "Object3D option"
  cachedProgressRef :: real
  startTimeRef :: "real option"
  lookAhead :: Vector3
  tangent :: Vector3
  cameraTarget :: Vector3
  basisMatrix :: Matrix4
  camera :: Object3D
  reported :: "real list"
  curve :: CatmullRomCurve3
  roadGeometry :: Geometry
  grassMatrices :: "Instance option list"
  stones :: "(Vector3 \<times> real) list"
  trees :: "(Vector3 \<times> real) list"

definition ANIMATION_DURATION :: real where
  "ANIMATION_DURATION = 8"

definition offset :: Vector3 where
  "offset = Vector3 (- 1.25) 0.62 1.4"

definition scene_curve :: CatmullRomCurve3 where
  "scene_curve =
     \<lparr> points = [Vector3 (- 5.3) 0.12 3.1, Vector3 (- 2.3) 0.08 1.4, Vector3 0.4 0.06 0.3,
                  Vector3 3.1 0.05 (- 0.6), Vector3 6.2 0.04 (- 1.5)],
       closed = False, curveType = ''catmullrom'', tension = 0.5 \<rparr>"

text \<open>
  The locals of the callback, as functions of the store, of \<open>state.clock.elapsedTime\<close> and
  of \<open>delta\<close>.
  \<^verbatim>\<open>
  if (startTimeRef.current === null) { startTimeRef.current = state.clock.elapsedTime; }
  const elapsed = state.clock.elapsedTime - startTimeRef.current;
  const raw = THREE.MathUtils.clamp(elapsed / ANIMATION_DURATION, 0, 1);
  const eased = THREE.MathUtils.smootherstep(raw, 0, 1);
  const jaxProgress = eased;
  const ninoProgress = Math.min(Math.max(eased - 0.16, 0) * 0.94, 0.98);
  \<close>
\<close>

definition startTime :: "Scene \<Rightarrow> real \<Rightarrow> real" where
  "startTime s clock = (case startTimeRef s of None \<Rightarrow> clock | Some t \<Rightarrow> t)"

definition elapsed :: "Scene \<Rightarrow> real \<Rightarrow> real" where
  "elapsed s clock = fsub clock (startTime s clock)"

definition progress :: "real \<Rightarrow> real" where
  "progress t = smootherstep (clamp (fdiv t ANIMATION_DURATION) 0 1) 0 1"

definition eased :: "Scene \<Rightarrow> real \<Rightarrow> real" where
  "eased s clock = progress (elapsed s clock)"

definition jaxProgress :: "real \<Rightarrow> real" where
  "jaxProgress e = e"

definition ninoProgress :: "real \<Rightarrow> real" where
  "ninoProgress e = min (max (e - 0.16) 0 * 0.94) 0.98"

definition jaxPosition :: "Three \<Rightarrow> Scene \<Rightarrow> real \<Rightarrow> Vector3" where
  "jaxPosition lib s clock = getPointAt lib (curve s) (jaxProgress (eased s clock))"

definition ninoPosition :: "Three \<Rightarrow> Scene \<Rightarrow> real \<Rightarrow> Vector3" where
  "ninoPosition lib s clock = getPointAt lib (curve s) (ninoProgress (eased s clock))"

definition frame_tangent :: "Three \<Rightarrow> Scene \<Rightarrow> real \<Rightarrow> Vector3" where
  \<comment> \<open>\<open>curve.getTangentAt(jaxProgress, tangent).normalize()\<close>\<close>
  "frame_tangent lib s clock =
     normalize (getTangentAt lib (curve s) (jaxProgress (eased s clock)))"

definition frame_jax :: "Three \<Rightarrow> Scene \<Rightarrow> real \<Rightarrow> Object3D \<Rightarrow> Object3D" where
  "frame_jax lib s clock g =
     (let p = jaxPosition lib s clock;
          la = addScaledVector p (frame_tangent lib s clock) 0.8;
          r = lookAt_object lib p la
      in g\<lparr> position := Vector3 (vx p) (vy p + sin (elapsed s clock * 6) * 0.024) (vz p),
            rotation := Euler (ex r) (ey r + sin (elapsed s clock * 12) * 0.02) (ez r) \<rparr>)"

definition frame_nino :: "Three \<Rightarrow> Scene \<Rightarrow> real \<Rightarrow> Object3D \<Rightarrow> Object3D" where
  "frame_nino lib s clock g =
     (let p = ninoPosition lib s clock; t = frame_tangent lib s clock
      in g\<lparr> position := Vector3 (vx p) (vy p + (0.16 + sin (elapsed s clock * 7 + 1.8) * 0.05)) (vz p),
            rotation := Euler (ex (rotation g))
                          (atan2 (vx t) (vz t) + sin (elapsed s clock * 8) * 0.18)
                          (sin (elapsed s clock * 10) * 0.12) \<rparr>)"

definition frame_toolBag :: "Scene \<Rightarrow> real \<Rightarrow> Object3D \<Rightarrow> Object3D" where
  "frame_toolBag s clock g =
     g\<lparr> rotation := Euler (ex (rotation g)) (ey (rotation g))
                       (sin (elapsed s clock * 12) * 0.28 + lerp 0.7 0.08 (eased s clock)),
        position := Vector3 (- 0.22) 0.25 (- 0.14) \<rparr>"

definition frame_cameraTarget :: "Three \<Rightarrow> Scene \<Rightarrow> real \<Rightarrow> Vector3" where
  \<comment> \<open>\<open>cameraTarget.copy(jaxPosition).add(new THREE.Vector3(0, 0.45, 0))\<close>\<close>
  "frame_cameraTarget lib s clock = add_v (jaxPosition lib s clock) (Vector3 0 0.45 0)"

definition frame_basisMatrix :: "Three \<Rightarrow> Scene \<Rightarrow> real \<Rightarrow> Matrix4" where
  "frame_basisMatrix lib s clock =
     lookAt_matrix lib (basisMatrix s) (Vector3 0 0 0) (frame_tangent lib s clock) (Vector3 0 1 0)"

definition desired :: "Three \<Rightarrow> Scene \<Rightarrow> real \<Rightarrow> Vector3" where
  \<comment> \<open>\<open>jaxPosition.clone().add(offset.clone().applyMatrix4(basisMatrix))\<close>\<close>
  "desired lib s clock =
     add_v (jaxPosition lib s clock) (applyMatrix4 lib offset (frame_basisMatrix lib s clock))"

definition frame_camera :: "Three \<Rightarrow> Scene \<Rightarrow> real \<Rightarrow> real \<Rightarrow> Object3D \<Rightarrow> Object3D" where
  "frame_camera lib s clock delta c =
     (let p = lerp_v (position c) (desired lib s clock) (1 - 0.0001 powr delta)
      in c\<lparr> position := p, rotation := lookAt_camera lib p (frame_cameraTarget lib s clock) \<rparr>)"

text \<open>
  \<open>curve.getPointAt(u)\<close> and \<open>curve.getTangentAt(u)\<close> look \<open>u\<close> times the length of the curve
  up in the table of arc lengths of the library. For \<open>u\<close> outside \<open>[0, 1]\<close> the search leaves
  the table, the parameter of the curve becomes \<open>NaN\<close> and \<open>getPoint\<close> reads the \<open>x\<close> of a
  control point that is not there: a \<open>TypeError\<close>. The functions of the record \<open>Three\<close>
  give the points for \<open>u\<close> in \<open>[0, 1]\<close>; outside, the callback throws.
\<close>

datatype error = TypeError

definition outside :: "real \<Rightarrow> bool" where
  "outside u \<longleftrightarrow> u < 0 \<or> 1 < u"

text \<open>
  One call of the callback: the exception, if it throws, and the store it leaves. It has
  written the start time and the progress before the first call of \<open>getPointAt\<close>, and
  nothing else when that call throws. The guards \<open>if (jaxRef.current)\<close> and so on are the
  \<open>map_option\<close>s; \<open>lookAhead\<close> is written inside the first guard only.
\<close>

definition frame :: "Three \<Rightarrow> Scene \<Rightarrow> real \<Rightarrow> real \<Rightarrow> error option \<times> Scene" where
  "frame lib s clock delta =
     (let s1 = s\<lparr> startTimeRef := Some (startTime s clock),
                   cachedProgressRef :=
                     (if \<bar>cachedProgressRef s - eased s clock\<bar> > 0.001 then eased s clock
                      else cachedProgressRef s),
                   reported :=
                     (if \<bar>cachedProgressRef s - eased s clock\<bar> > 0.001
                      then reported s @ [eased s clock]
                      else reported s) \<rparr>
      in if outside (jaxProgress (eased s clock)) \<or> outside (ninoProgress (eased s clock))
         then (Some TypeError, s1)
         else (None,
           s1\<lparr> tangent := frame_tangent lib s clock,
               lookAhead :=
                 (if jaxRef s = None then lookAhead s
                  else addScaledVector (jaxPosition lib s clock) (frame_tangent lib s clock) 0.8),
               jaxRef := map_option (frame_jax lib s clock) (jaxRef s),
               ninoRef := map_option (frame_nino lib s clock) (ninoRef s),
               toolBagRef := map_option (frame_toolBag s clock) (toolBagRef s),
               cameraTarget := frame_cameraTarget lib s clock,
               basisMatrix := frame_basisMatrix lib s clock,
               camera := frame_camera lib s clock delta (camera s) \<rparr>))"

text \<open>
  The rendering loop: one call for each pair of a clock time and a frame time. The loop asks
  for the next frame before it runs the callbacks, so a call that throws does not stop it.
\<close>

fun frames :: "Three \<Rightarrow> Scene \<Rightarrow> (real \<times> real) list \<Rightarrow> Scene" where
  "frames lib s [] = s"
| "frames lib s ((clock, delta) # fs) = frames lib (snd (frame lib s clock delta)) fs"

section \<open>The road\<close>

text \<open>
  \<^verbatim>\<open>
  for (let i = 0; i < divisions; i++) {
    const t = i / (divisions - 1);
    const current = curve.getPointAt(t);
    const next = curve.getPointAt(Math.min(t + 1 / (divisions - 1), 1));
    const dir = next.clone().sub(current).normalize();
    const right = new THREE.Vector3(dir.z, 0, -dir.x).normalize().multiplyScalar(ROAD_WIDTH);
    const tl = current.clone().add(right);  const bl = current.clone().sub(right);
    const tr = next.clone().add(right);     const br = next.clone().sub(right);
    vertices.push(tl.x, tl.y + 0.002, tl.z, bl..., br..., tl..., br..., tr...);
    for (let face = 0; face < 6; face++) { normals.push(0, 1, 0); }
    uvs.push(1, 0, 0, 0, 0, 1, 1, 0, 0, 1, 1, 1);
  }
  \<close>
\<close>

definition ROAD_WIDTH :: real where
  "ROAD_WIDTH = 0.9"

definition divisions :: nat where
  "divisions = 90"

definition road_t :: "nat \<Rightarrow> real" where
  "road_t i = real i / (real divisions - 1)"

definition road_current :: "Three \<Rightarrow> CatmullRomCurve3 \<Rightarrow> nat \<Rightarrow> Vector3" where
  "road_current lib c i = getPointAt lib c (road_t i)"

definition road_next :: "Three \<Rightarrow> CatmullRomCurve3 \<Rightarrow> nat \<Rightarrow> Vector3" where
  "road_next lib c i = getPointAt lib c (min (road_t i + 1 / (real divisions - 1)) 1)"

definition road_dir :: "Three \<Rightarrow> CatmullRomCurve3 \<Rightarrow> nat \<Rightarrow> Vector3" where
  "road_dir lib c i = normalize (sub_v (road_next lib c i) (road_current lib c i))"

definition road_right :: "Three \<Rightarrow> CatmullRomCurve3 \<Rightarrow> nat \<Rightarrow> Vector3" where
  "road_right lib c i =
     multiplyScalar
       (normalize (Vector3 (vz (road_dir lib c i)) 0 (- vx (road_dir lib c i)))) ROAD_WIDTH"

definition raised :: "Vector3 \<Rightarrow> real list" where
  \<comment> \<open>\<open>v.x, v.y + 0.002, v.z\<close>\<close>
  "raised v = [vx v, vy v + 0.002, vz v]"

definition road_vertices :: "Three \<Rightarrow> CatmullRomCurve3 \<Rightarrow> nat \<Rightarrow> real list" where
  "road_vertices lib c i =
     (let current = road_current lib c i; next = road_next lib c i; right = road_right lib c i;
          tl = add_v current right; bl = sub_v current right;
          tr = add_v next right; br = sub_v next right
      in raised tl @ raised bl @ raised br @ raised tl @ raised br @ raised tr)"

definition road_normals :: "nat \<Rightarrow> real list" where
  "road_normals i = concat (replicate 6 [0, 1, 0])"

definition road_uvs :: "nat \<Rightarrow> real list" where
  "road_uvs i = [1, 0, 0, 0, 0, 1, 1, 0, 0, 1, 1, 1]"

definition Road :: "Three \<Rightarrow> CatmullRomCurve3 \<Rightarrow> Geometry" where
  \<comment> \<open>the three attributes, and then \<open>buffer.computeVertexNormals()\<close>\<close>
  "Road lib c =
     (let vertices = concat (map (road_vertices lib c) [0..<divisions]);
          normals = concat (map road_normals [0..<divisions]);
          uvs = concat (map road_uvs [0..<divisions])
      in \<lparr> position_attr = vertices, normal_attr = computeVertexNormals lib vertices,
            uv_attr = uvs \<rparr>)"

section \<open>The grass\<close>

text \<open>
  \<^verbatim>\<open>
  const radius = 7.3;
  const rand = createRandom(42);
  let filled = 0;
  while (filled < instances) {
    const angle = rand() * Math.PI * 2;
    const dist = rand() * radius;
    const x = Math.cos(angle) * dist;
    const z = Math.sin(angle) * dist;
    if (Math.abs(z) < 1.1 && x > -5.5 && x < 6.4) { continue; }
    dummy.position.set(x, 0.07, z);
    const scale = 0.6 + rand() * 0.8;
    dummy.scale.set(scale * 0.8, scale, scale * 0.8);
    dummy.rotation.y = rand() * Math.PI;
    dummy.updateMatrix();
    meshRef.current.setMatrixAt(filled, dummy.matrix);
    filled++;
  }
  \<close>
  The matrix of \<open>dummy\<close> is composed from the position, the rotation and the scale set just
  before; an \<open>Instance\<close> holds the three. A slot of the mesh that was never written is \<open>None\<close>.
  The loop may run forever: it returns an \<open>option\<close>. Where the mesh is not mounted the effect
  returns before the loop and writes nothing; the model is the effect on a mounted mesh.
\<close>

record GrassState =
  rng :: int
  filled :: nat
  matrices :: "Instance option list"

definition radius :: real where
  "radius = 7.3"

definition grass_x :: "real \<Rightarrow> real \<Rightarrow> real" where
  "grass_x r1 r2 = cos (r1 * pi * 2) * (r2 * radius)"

definition grass_z :: "real \<Rightarrow> real \<Rightarrow> real" where
  "grass_z r1 r2 = sin (r1 * pi * 2) * (r2 * radius)"

definition on_road :: "real \<Rightarrow> real \<Rightarrow> bool" where
  \<comment> \<open>the test before \<open>continue\<close>\<close>
  "on_road x z \<longleftrightarrow> \<bar>z\<bar> < 1.1 \<and> x > - 5.5 \<and> x < 6.4"

definition grass_body :: "GrassState \<Rightarrow> GrassState" where
  "grass_body s =
     (let (r1, v1) = rand (rng s);
          (r2, v2) = rand v1;
          x = grass_x r1 r2;
          z = grass_z r1 r2
      in if on_road x z then s\<lparr> rng := v2 \<rparr>
         else
           (let (r3, v3) = rand v2;
                scale = 0.6 + r3 * 0.8;
                (r4, v4) = rand v3;
                m = \<lparr> inst_position = Vector3 x 0.07 z,
                      inst_scale = Vector3 (scale * 0.8) scale (scale * 0.8),
                      inst_rotation_y = r4 * pi \<rparr>
            in s\<lparr> rng := v4, filled := filled s + 1,
                  matrices := (matrices s)[filled s := Some m] \<rparr>))"

partial_function (option) grass_loop :: "nat \<Rightarrow> GrassState \<Rightarrow> GrassState option" where
  "grass_loop instances s =
     (if filled s < instances then grass_loop instances (grass_body s) else Some s)"

definition grass_init :: "nat \<Rightarrow> GrassState" where
  "grass_init instances =
     \<lparr> rng = createRandom 42, filled = 0, matrices = replicate instances None \<rparr>"

definition GrassField :: "GrassState option" where
  "GrassField = grass_loop 600 (grass_init 600)"

section \<open>Concrete inputs\<close>

text \<open>
  The store when the components have mounted: the refs hold groups with the default
  transform, the camera stands where the \<open>Canvas\<close> puts it, nothing has been reported. The
  scenery built by the other components is a parameter.
\<close>

definition mounted ::
  "Three \<Rightarrow> Instance option list \<Rightarrow> (Vector3 \<times> real) list \<Rightarrow> (Vector3 \<times> real) list \<Rightarrow> Scene" where
  "mounted lib grass st tr =
     \<lparr> jaxRef = Some \<lparr> position = Vector3 0 0 0, rotation = Euler 0 0 0 \<rparr>,
       ninoRef = Some \<lparr> position = Vector3 0 0 0, rotation = Euler 0 0 0 \<rparr>,
       toolBagRef = Some \<lparr> position = Vector3 0 0 0, rotation = Euler 0 0 0 \<rparr>,
       cachedProgressRef = 0,
       startTimeRef = None,
       lookAhead = Vector3 0 0 0,
       tangent = Vector3 0 0 0,
       cameraTarget = Vector3 0 0 0,
       basisMatrix = [1, 0, 0, 0, 0, 1, 0, 0, 0, 0, 1, 0, 0, 0, 0, 1],
       camera = \<lparr> position = Vector3 (- 4) 1.2 4,
                  rotation = lookAt_camera lib (Vector3 (- 4) 1.2 4) (Vector3 0 0 0) \<rparr>,
       reported = [],
       curve = scene_curve,
       roadGeometry = Road lib scene_curve,
       grassMatrices = grass,
       stones = st,
       trees = tr \<rparr>"

text \<open>
  A library to run the model on: it walks the chord from the first control point of a curve
  to the last, and its rotations and matrices do nothing. It stands for three.js where a
  statement needs a closed term; no general statement depends on it.
\<close>

definition chord_lib :: Three where
  "chord_lib =
     \<lparr> getPointAt = (\<lambda>c u. lerp_v (hd (points c)) (last (points c)) u),
       getTangentAt = (\<lambda>c u. normalize (sub_v (last (points c)) (hd (points c)))),
       lookAt_object = (\<lambda>p t. Euler 0 0 0),
       lookAt_camera = (\<lambda>p t. Euler 0 0 0),
       lookAt_matrix = (\<lambda>m eye target up. m),
       applyMatrix4 = (\<lambda>v m. v),
       computeVertexNormals = (\<lambda>vs. vs) \<rparr>"

section \<open>What a frame may write\<close>

text \<open>
  \<open>transforms_only s s'\<close>: the store \<open>s'\<close> differs from \<open>s\<close> in the transforms of the three
  groups and of the camera and in the cached progress, and nowhere else.
  \<open>frame_writes s s'\<close> allows the start time, the four scratch objects and the log of
  \<open>onProgress\<close> as well.
\<close>

definition transforms_only :: "Scene \<Rightarrow> Scene \<Rightarrow> bool" where
  "transforms_only s s' \<longleftrightarrow>
     s' = s\<lparr> jaxRef := jaxRef s', ninoRef := ninoRef s', toolBagRef := toolBagRef s',
              camera := camera s', cachedProgressRef := cachedProgressRef s' \<rparr>"

definition frame_writes :: "Scene \<Rightarrow> Scene \<Rightarrow> bool" where
  "frame_writes s s' \<longleftrightarrow>
     s' = s\<lparr> jaxRef := jaxRef s', ninoRef := ninoRef s', toolBagRef := toolBagRef s',
              camera := camera s', cachedProgressRef := cachedProgressRef s',
              startTimeRef := startTimeRef s', lookAhead := lookAhead s',
              tangent := tangent s', cameraTarget := cameraTarget s',
              basisMatrix := basisMatrix s', reported := reported s' \<rparr>"

text \<open>
  \<open>placed_ok m\<close>: the instance stands at height \<open>0.07\<close>, at most \<open>7.3\<close> from the origin in the
  plane of \<open>x\<close> and \<open>z\<close>, and off the corridor of the road. \<open>grass_inv n s\<close> is what holds
  of the loop of the grass at the head of every iteration: the slots below \<open>filled\<close> hold
  such instances, the others are untouched.
\<close>

definition placed_ok :: "Instance \<Rightarrow> bool" where
  "placed_ok m \<longleftrightarrow>
     vy (inst_position m) = 0.07
     \<and> sqrt ((vx (inst_position m))\<^sup>2 + (vz (inst_position m))\<^sup>2) \<le> 7.3
     \<and> \<not> (\<bar>vz (inst_position m)\<bar> < 1.1 \<and> vx (inst_position m) > - 5.5
           \<and> vx (inst_position m) < 6.4)"

definition grass_inv :: "nat \<Rightarrow> GrassState \<Rightarrow> bool" where
  "grass_inv n s \<longleftrightarrow>
     1 \<le> rng s \<and> rng s \<le> 2147483646 \<and> filled s \<le> n \<and> length (matrices s) = n
     \<and> (\<forall>i < filled s. \<exists>m. matrices s ! i = Some m \<and> placed_ok m)
     \<and> (\<forall>i. filled s \<le> i \<and> i < n \<longrightarrow> matrices s ! i = None)"

section \<open>Deciding the road test with integers\<close>

text \<open>
  To run the loop of the grass, the test \<open>on_road\<close> has to be decided for the numbers that the
  generator returns. The functions of this section do it with integers. A fixed-point
  number has 18 fraction bits; the pair \<open>(l, u)\<close> encloses the real \<open>x\<close> when
  \<open>l \<le> x * 2^18 \<le> u\<close>. The angle is reduced to a quarter turn \<open>q\<close> and a rest of at
  most an eighth of a turn, the sine and the cosine of the rest are enclosed by their Taylor
  polynomials, and the test is answered only where the enclosures settle it.
\<close>

type_synonym ivl = "int \<times> int"

definition encl :: "ivl \<Rightarrow> real \<Rightarrow> bool" where
  "encl i x \<longleftrightarrow> real_of_int (fst i) \<le> x * 262144 \<and> x * 262144 \<le> real_of_int (snd i)"

definition iv_mul :: "ivl \<Rightarrow> ivl \<Rightarrow> ivl" where
  \<comment> \<open>the product of two enclosures with lower bounds that are not negative\<close>
  "iv_mul i j = (drop_bit 18 (fst i * fst j), drop_bit 18 (snd i * snd j) + 1)"

definition iv_csub :: "int \<Rightarrow> ivl \<Rightarrow> ivl" where
  \<comment> \<open>\<open>c - x\<close>\<close>
  "iv_csub c i = (c * 262144 - snd i, c * 262144 - fst i)"

definition iv_scale :: "int \<Rightarrow> ivl \<Rightarrow> ivl" where
  \<comment> \<open>\<open>c * x\<close> for \<open>c \<ge> 0\<close>\<close>
  "iv_scale c i = (c * fst i, c * snd i)"

definition iv_div :: "ivl \<Rightarrow> int \<Rightarrow> ivl" where
  \<comment> \<open>\<open>x / c\<close> for \<open>c > 0\<close>\<close>
  "iv_div i c = (fst i div c, snd i div c + 1)"

definition iv_widen :: "ivl \<Rightarrow> int \<Rightarrow> ivl" where
  "iv_widen i e = (fst i - e, snd i + e)"

definition sin_iv :: "ivl \<Rightarrow> ivl \<Rightarrow> ivl option" where
  \<comment> \<open>\<open>sin f\<close> from \<open>f\<close> and \<open>y = f\<^sup>2\<close>, for \<open>0 \<le> f \<le> 4/5\<close>:
      \<open>f (5040 - y (840 - y (42 - y))) / 5040\<close>, off by \<open>f\<^sup>9 / 9!\<close> at most\<close>
  "sin_iv f y =
     (let h1 = iv_csub 42 y;
          h2 = iv_csub 840 (iv_mul y h1);
          h3 = iv_csub 5040 (iv_mul y h2);
          s = iv_widen (iv_div (iv_mul f h3) 5040) 1
      in if 0 \<le> fst f \<and> 0 \<le> fst y \<and> 0 \<le> fst h1 \<and> 0 \<le> fst h2 \<and> 0 \<le> fst h3 \<and> 0 \<le> fst s
         then Some s else None)"

definition cos_iv :: "ivl \<Rightarrow> ivl option" where
  \<comment> \<open>\<open>cos f\<close> from \<open>y = f\<^sup>2\<close>, for \<open>0 \<le> f \<le> 4/5\<close>:
      \<open>(720 - y (360 - y (30 - y))) / 720\<close>, off by \<open>f\<^sup>8 / 8!\<close> at most\<close>
  "cos_iv y =
     (let g1 = iv_csub 30 y;
          g2 = iv_csub 360 (iv_mul y g1);
          g3 = iv_csub 720 (iv_mul y g2);
          c = iv_widen (iv_div g3 720) 2
      in if 0 \<le> fst y \<and> 0 \<le> fst g1 \<and> 0 \<le> fst g2 \<and> 0 \<le> fst c
         then Some c else None)"

definition quadrant :: "int \<Rightarrow> int" where
  \<comment> \<open>the quarter turn nearest to \<open>k / (4 * 2147483646)\<close> of a turn\<close>
  "quadrant k =
     (if 2 * k < 2147483646 then 0
      else if 2 * k < 3 * 2147483646 then 1
      else if 2 * k < 5 * 2147483646 then 2
      else if 2 * k < 7 * 2147483646 then 3 else 4)"

definition settle :: "int \<Rightarrow> int \<Rightarrow> ivl \<Rightarrow> ivl \<Rightarrow> ivl \<Rightarrow> bool option" where
  \<comment> \<open>\<open>\<bar>z\<bar>\<close> and \<open>\<bar>x\<bar>\<close> from the distance and from the sine and the cosine of the rest; the
      sign of \<open>x\<close> chooses the bound \<open>6.4\<close> or \<open>5.5\<close>\<close>
  "settle q e ds s c =
     (let az = iv_mul ds (if even q then s else c);
          ax = iv_mul ds (if even q then c else s);
          b = (if q = 0 \<or> q = 4 \<or> (q = 1 \<and> e < 0) \<or> (q = 3 \<and> 0 \<le> e) then 64 else 55)
      in if 10 * snd az < 11 * 262144 \<and> 10 * snd ax < b * 262144 then Some True
         else if 11 * 262144 \<le> 10 * fst az \<or> b * 262144 \<le> 10 * fst ax then Some False
         else None)"

definition road_test :: "int \<Rightarrow> int \<Rightarrow> bool option" where
  \<comment> \<open>\<open>a\<close> and \<open>d\<close> are the contents of the generator after the draws of the angle and of
      the distance\<close>
  "road_test a d =
     (let k = 4 * (a - 1);
          q = quadrant k;
          e = k - q * 2147483646;
          t = (drop_bit 14 \<bar>e\<bar>, drop_bit 14 \<bar>e\<bar> + 2);
          f = iv_mul (823549, 823550) t;
          y = iv_mul f f;
          ds = iv_div (iv_scale 73 (drop_bit 12 (d - 1), drop_bit 12 (d - 1) + 2)) 20
      in if 1 \<le> a \<and> a \<le> 2147483646 \<and> 1 \<le> d \<and> d \<le> 2147483646 \<and> snd f \<le> 209715
         then (case sin_iv f y of None \<Rightarrow> None
               | Some s \<Rightarrow> (case cos_iv y of None \<Rightarrow> None
                            | Some c \<Rightarrow> settle q e ds s c))
         else None)"

text \<open>
  The loop of the grass on the content of the generator and the counter alone, with the
  test decided by \<open>road_test\<close>; \<open>None\<close> where \<open>road_test\<close> leaves the test open.
\<close>

definition lcg :: "int \<Rightarrow> int" where
  "lcg v = (v * 16807) mod 2147483647"

definition walk_step :: "int \<times> nat \<Rightarrow> (int \<times> nat) option" where
  "walk_step p =
     (let a = lcg (fst p); d = lcg a
      in case road_test a d of
           None \<Rightarrow> None
         | Some True \<Rightarrow> Some (d, snd p)
         | Some False \<Rightarrow> Some (lcg (lcg d), Suc (snd p)))"

fun walk :: "nat \<Rightarrow> int \<times> nat \<Rightarrow> (int \<times> nat) option" where
  "walk 0 p = Some p"
| "walk (Suc n) p = (case walk_step p of None \<Rightarrow> None | Some p' \<Rightarrow> walk n p')"

section \<open>Properties of the generator\<close>

lemma js_rem_pos: "0 \<le> a \<Longrightarrow> 0 < b \<Longrightarrow> 0 \<le> js_rem a b \<and> js_rem a b < b"
  by (simp add: js_rem_def)

lemma step_not_zero:
  assumes "1 \<le> (v::int)" "v \<le> 2147483646"
  shows "(v * 16807) mod 2147483647 \<noteq> 0"
proof
  assume "(v * 16807) mod 2147483647 = 0"
  then have d: "(2147483647::int) dvd v * 16807" by presburger
  have "coprime (2147483647::int) 16807"
  proof -
    have "gcd (2147483647::int) 16807 = 1" by code_simp
    then show ?thesis by (simp only: coprime_iff_gcd_eq_1)
  qed
  with d have "(2147483647::int) dvd v" by (simp add: coprime_dvd_mult_left_iff)
  with assms show False by (auto dest: zdvd_imp_le)
qed

lemma rand_keeps_range:
  assumes "1 \<le> (v::int)" "v \<le> 2147483646"
  shows "1 \<le> snd (rand v) \<and> snd (rand v) \<le> 2147483646"
proof -
  have nz: "(v * 16807) mod 2147483647 \<noteq> 0" using assms by (rule step_not_zero)
  have "0 \<le> (v * 16807) mod 2147483647" "(v * 16807) mod 2147483647 < 2147483647"
    by simp_all
  with nz have "1 \<le> (v * 16807) mod 2147483647 \<and> (v * 16807) mod 2147483647 \<le> 2147483646"
    by linarith
  moreover have "snd (rand v) = (v * 16807) mod 2147483647"
    using assms by (simp add: rand_def js_rem_def Let_def)
  ultimately show ?thesis by simp
qed

lemma rand_result_range:
  assumes "1 \<le> (v::int)" "v \<le> 2147483646"
  shows "0 \<le> fst (rand v) \<and> fst (rand v) < 1"
proof -
  have r: "1 \<le> snd (rand v) \<and> snd (rand v) \<le> 2147483646"
    using assms by (rule rand_keeps_range)
  have "fst (rand v) = (real_of_int (snd (rand v)) - 1) / 2147483646"
    by (simp add: rand_def Let_def)
  with r show ?thesis by simp
qed

lemma createRandom_range:
  assumes "js_rem seed 2147483647 \<noteq> - 2147483646"
  shows "1 \<le> createRandom seed \<and> createRandom seed \<le> 2147483646"
proof -
  have "0 \<le> (- seed) mod 2147483647" "(- seed) mod 2147483647 < 2147483647"
       "0 \<le> seed mod 2147483647" "seed mod 2147483647 < 2147483647"
    by simp_all
  then show ?thesis
    using assms unfolding createRandom_def js_rem_def Let_def
    by (auto split: if_splits)
qed

text \<open>
  C10. The claim: for every integer seed the content of the generator stays in
  \<open>[1, 2147483646]\<close> and every number returned is in \<open>[0, 1)\<close>. At the seed
  \<open>-2147483646\<close> the remainder is \<open>-2147483646\<close>, the guard \<open>value <= 0\<close> adds
  \<open>2147483646\<close> and the content starts at \<open>0\<close>; it stays \<open>0\<close>, and every call returns
  \<open>-1 / 2147483646\<close>, a negative number.
\<close>

theorem createRandom_seed_stuck_at_zero:
  "createRandom (- 2147483646) = 0 \<and> snd (rand 0) = 0 \<and> fst (rand 0) = - 1 / 2147483646
   \<and> fst (rand 0) < 0"
  by (simp add: createRandom_def rand_def js_rem_def Let_def)

section \<open>Properties of rounding\<close>

lemma rd_zero: "rd 0 = 0"
  by (simp add: rd_def)

lemma round_even_of_int: "round_even (real_of_int n) = n"
  by (simp add: round_even_def)

lemma round_even_ge: "real_of_int n \<le> q \<Longrightarrow> n \<le> round_even q"
proof -
  assume "real_of_int n \<le> q"
  then have "n \<le> \<lfloor>q\<rfloor>" by (simp add: le_floor_iff)
  then show ?thesis by (auto simp: round_even_def Let_def)
qed

lemma rd_eval:
  assumes "2 ^ 52 \<le> \<bar>x\<bar> * 2 ^ m" "\<bar>x\<bar> * 2 ^ m < 2 ^ 53" "m \<le> 1074"
  shows "rd x = real_of_int (round_even (x * 2 ^ m)) / 2 ^ m"
proof -
  have x0: "x \<noteq> 0" "0 < \<bar>x\<bar>" using assms(1) by auto
  have p: "(2::real) powr (real_of_int (52 - int m)) = 2 ^ 52 / 2 ^ m"
    "(2::real) powr (real_of_int (52 - int m) + 1) = 2 ^ 53 / 2 ^ m"
    by (simp_all add: powr_diff powr_realpow [symmetric] powr_add)
  have "(2::real) powr (real_of_int (52 - int m)) \<le> \<bar>x\<bar>"
    "\<bar>x\<bar> < (2::real) powr (real_of_int (52 - int m) + 1)"
    unfolding p using assms(1,2) by (simp_all add: field_simps)
  then have e: "\<lfloor>log 2 \<bar>x\<bar>\<rfloor> = 52 - int m"
    using x0 by (subst floor_log_eq_powr_iff) simp_all
  have "max (52 - int m) (- 1022) = 52 - int m" using assms(3) by simp
  moreover have "(2::real) powr (real_of_int (52 - int m) - 52) = 1 / 2 ^ m"
    by (simp add: powr_minus powr_realpow [symmetric] field_simps)
  ultimately show ?thesis using x0 by (simp add: rd_def e Let_def)
qed

lemma rd_exact:
  assumes "x = real_of_int n / 2 ^ m" "2 ^ 52 \<le> \<bar>n\<bar>" "\<bar>n\<bar> < 2 ^ 53" "m \<le> 1074"
  shows "rd x = x"
proof -
  have a: "\<bar>x\<bar> * 2 ^ m = real_of_int \<bar>n\<bar>" by (simp add: assms(1) abs_divide)
  have "real_of_int (2 ^ 52) \<le> real_of_int \<bar>n\<bar>" "real_of_int \<bar>n\<bar> < real_of_int (2 ^ 53)"
    using assms(2,3) by (simp_all only: of_int_le_iff of_int_less_iff)
  then have "2 ^ 52 \<le> real_of_int \<bar>n\<bar>" "real_of_int \<bar>n\<bar> < 2 ^ 53" by simp_all
  then have "rd x = real_of_int (round_even (x * 2 ^ m)) / 2 ^ m"
    using assms(4) by (intro rd_eval) (simp_all add: a)
  also have "x * 2 ^ m = real_of_int n" by (simp add: assms(1))
  finally show ?thesis by (simp add: round_even_of_int assms(1))
qed

text \<open>Rounding does not go below a power of two that the number has reached.\<close>

lemma rd_ge_power:
  assumes "2 ^ k \<le> x"
  shows "2 ^ k \<le> rd x"
proof -
  have x0: "0 < x" using assms by (smt (verit) zero_less_power)
  define e where "e = \<lfloor>log 2 \<bar>x\<bar>\<rfloor>"
  define u where "u = (2::real) powr (real_of_int (max e (- 1022)) - 52)"
  have u0: "0 < u" by (simp add: u_def)
  have "real k \<le> log 2 x"
    using assms x0 by (simp add: le_log_iff powr_realpow)
  then have ek: "int k \<le> e" unfolding e_def using x0 by (simp add: le_floor_iff)
  then have m: "max e (- 1022) = e" by simp
  have "2 powr (real_of_int e) \<le> 2 powr (log 2 x)"
    unfolding e_def using x0 by (intro powr_mono) simp_all
  then have "2 powr (real_of_int e) \<le> x" using x0 by simp
  then have "2 powr (real_of_int e) / u \<le> x / u" using u0 by (simp add: divide_right_mono)
  moreover have "2 powr (real_of_int e) / u = real_of_int (2 ^ 52)"
    unfolding u_def m by (simp add: powr_diff [symmetric] powr_realpow [symmetric])
  ultimately have "2 ^ 52 \<le> round_even (x / u)" by (intro round_even_ge) simp
  then have "real_of_int (2 ^ 52) * u \<le> real_of_int (round_even (x / u)) * u"
    using u0 by (simp only: mult_le_cancel_right_pos of_int_le_iff)
  moreover have "real_of_int (2 ^ 52) * u = 2 powr (real_of_int e)"
    unfolding u_def m by (simp add: powr_diff powr_realpow [symmetric])
  moreover have "(2::real) ^ k \<le> 2 powr (real_of_int e)"
    using ek by (simp add: powr_realpow [symmetric] del: powr_numeral)
  moreover have "rd x = real_of_int (round_even (x / u)) * u"
    using x0 by (simp add: rd_def Let_def u_def e_def)
  ultimately show ?thesis by linarith
qed

section \<open>Properties of the progress\<close>

lemma progress_zero: "progress 0 = 0"
  by (simp add: progress_def fdiv_def rd_zero clamp_def smootherstep_def)

lemma progress_done:
  assumes "8 \<le> t"
  shows "progress t = 1"
proof -
  have "2 ^ 0 \<le> t / 8" using assms by simp
  then have "2 ^ 0 \<le> rd (t / 8)" by (rule rd_ge_power)
  then show ?thesis
    by (simp add: progress_def fdiv_def ANIMATION_DURATION_def clamp_def smootherstep_def)
qed

lemma fsub_ge_8:
  assumes "8 \<le> c - c0"
  shows "8 \<le> fsub c c0"
proof -
  have "2 ^ 3 \<le> c - c0" using assms by simp
  then have "2 ^ 3 \<le> rd (c - c0)" by (rule rd_ge_power)
  then show ?thesis by (simp add: fsub_def)
qed


text \<open>
  The progress in doubles at three times. Just before the end it is above \<open>1\<close>, and a little
  earlier it falls from one time to a later one.
\<close>

lemma progress_overshoot: "progress (67108863 / 8388608) = (2251799813685249 / 2251799813685248)"
proof -
  have r1: "rd ((67108863 / 67108864) :: real) = (67108863 / 67108864)"
    by (subst rd_eval [where m = 53]) (simp_all add: round_even_def Let_def)
  have e1: "(67108863 / 8388608) / 8 = ((67108863 / 67108864) :: real)" by simp
  have o1: "fdiv (67108863 / 8388608) 8 = (67108863 / 67108864)" unfolding fdiv_def e1 by (rule r1)
  have r2: "rd ((67108863 / 67108864) :: real) = (67108863 / 67108864)"
    by (subst rd_eval [where m = 53]) (simp_all add: round_even_def Let_def)
  have e2: "(67108863 / 67108864) - 0 = ((67108863 / 67108864) :: real)" by simp
  have o2: "fsub (67108863 / 67108864) 0 = (67108863 / 67108864)" unfolding fsub_def e2 by (rule r2)
  have r3: "rd (1 :: real) = 1"
    by (subst rd_eval [where m = 52]) (simp_all add: round_even_def Let_def)
  have e3: "1 - 0 = (1 :: real)" by simp
  have o3: "fsub 1 0 = 1" unfolding fsub_def e3 by (rule r3)
  have r4: "rd ((67108863 / 67108864) :: real) = (67108863 / 67108864)"
    by (subst rd_eval [where m = 53]) (simp_all add: round_even_def Let_def)
  have e4: "(67108863 / 67108864) / 1 = ((67108863 / 67108864) :: real)" by simp
  have o4: "fdiv (67108863 / 67108864) 1 = (67108863 / 67108864)" unfolding fdiv_def e4 by (rule r4)
  have r5: "rd ((4503599493152769 / 4503599627370496) :: real) = (4503599493152769 / 4503599627370496)"
    by (subst rd_eval [where m = 53]) (simp_all add: round_even_def Let_def)
  have e5: "(67108863 / 67108864) * (67108863 / 67108864) = ((4503599493152769 / 4503599627370496) :: real)" by simp
  have o5: "fmul (67108863 / 67108864) (67108863 / 67108864) = (4503599493152769 / 4503599627370496)" unfolding fmul_def e5 by (rule r5)
  have r6: "rd ((302231441392858612891647 / 302231454903657293676544) :: real) = (4503599426043907 / 4503599627370496)"
    by (subst rd_eval [where m = 53]) (simp_all add: round_even_def Let_def)
  have e6: "(4503599493152769 / 4503599627370496) * (67108863 / 67108864) = ((302231441392858612891647 / 302231454903657293676544) :: real)" by simp
  have o6: "fmul (4503599493152769 / 4503599627370496) (67108863 / 67108864) = (4503599426043907 / 4503599627370496)" unfolding fmul_def e6 by (rule r6)
  have r7: "rd ((201326589 / 33554432) :: real) = (201326589 / 33554432)"
    by (subst rd_eval [where m = 50]) (simp_all add: round_even_def Let_def)
  have e7: "(67108863 / 67108864) * 6 = ((201326589 / 33554432) :: real)" by simp
  have o7: "fmul (67108863 / 67108864) 6 = (201326589 / 33554432)" unfolding fmul_def e7 by (rule r7)
  have r8: "rd ((- (301989891 / 33554432)) :: real) = (- (301989891 / 33554432))"
    by (subst rd_eval [where m = 49]) (simp_all add: round_even_def Let_def)
  have e8: "(201326589 / 33554432) - 15 = ((- (301989891 / 33554432)) :: real)" by simp
  have o8: "fsub (201326589 / 33554432) 15 = (- (301989891 / 33554432))" unfolding fsub_def e8 by (rule r8)
  have r9: "rd ((- (20266198222503933 / 2251799813685248)) :: real) = (- (5066549555625983 / 562949953421312))"
    by (subst rd_eval [where m = 49]) (simp_all add: round_even_def Let_def)
  have e9: "(67108863 / 67108864) * (- (301989891 / 33554432)) = ((- (20266198222503933 / 2251799813685248)) :: real)" by simp
  have o9: "fmul (67108863 / 67108864) (- (301989891 / 33554432)) = (- (5066549555625983 / 562949953421312))" unfolding fmul_def e9 by (rule r9)
  have r10: "rd ((562949978587137 / 562949953421312) :: real) = (562949978587137 / 562949953421312)"
    by (subst rd_eval [where m = 52]) (simp_all add: round_even_def Let_def)
  have e10: "(- (5066549555625983 / 562949953421312)) + 10 = ((562949978587137 / 562949953421312) :: real)" by simp
  have o10: "fadd (- (5066549555625983 / 562949953421312)) 10 = (562949978587137 / 562949953421312)" unfolding fadd_def e10 by (rule r10)
  have r11: "rd ((2535301200456459928893187424259 / 2535301200456458802993406410752) :: real) = (2251799813685249 / 2251799813685248)"
    by (subst rd_eval [where m = 52]) (simp_all add: round_even_def Let_def)
  have e11: "(4503599426043907 / 4503599627370496) * (562949978587137 / 562949953421312) = ((2535301200456459928893187424259 / 2535301200456458802993406410752) :: real)" by simp
  have o11: "fmul (4503599426043907 / 4503599627370496) (562949978587137 / 562949953421312) = (2251799813685249 / 2251799813685248)" unfolding fmul_def e11 by (rule r11)
  show ?thesis
    by (simp add: progress_def ANIMATION_DURATION_def clamp_def smootherstep_def Let_def
        o1 o2 o3 o4 o5 o6 o7 o8 o9 o10 o11)
qed

lemma progress_before_dip: "progress (67108639 / 8388608) = 1"
proof -
  have r1: "rd ((67108639 / 67108864) :: real) = (67108639 / 67108864)"
    by (subst rd_eval [where m = 53]) (simp_all add: round_even_def Let_def)
  have e1: "(67108639 / 8388608) / 8 = ((67108639 / 67108864) :: real)" by simp
  have o1: "fdiv (67108639 / 8388608) 8 = (67108639 / 67108864)" unfolding fdiv_def e1 by (rule r1)
  have r2: "rd ((67108639 / 67108864) :: real) = (67108639 / 67108864)"
    by (subst rd_eval [where m = 53]) (simp_all add: round_even_def Let_def)
  have e2: "(67108639 / 67108864) - 0 = ((67108639 / 67108864) :: real)" by simp
  have o2: "fsub (67108639 / 67108864) 0 = (67108639 / 67108864)" unfolding fsub_def e2 by (rule r2)
  have r3: "rd (1 :: real) = 1"
    by (subst rd_eval [where m = 52]) (simp_all add: round_even_def Let_def)
  have e3: "1 - 0 = (1 :: real)" by simp
  have o3: "fsub 1 0 = 1" unfolding fsub_def e3 by (rule r3)
  have r4: "rd ((67108639 / 67108864) :: real) = (67108639 / 67108864)"
    by (subst rd_eval [where m = 53]) (simp_all add: round_even_def Let_def)
  have e4: "(67108639 / 67108864) / 1 = ((67108639 / 67108864) :: real)" by simp
  have o4: "fdiv (67108639 / 67108864) 1 = (67108639 / 67108864)" unfolding fdiv_def e4 by (rule r4)
  have r5: "rd ((4503569428432321 / 4503599627370496) :: real) = (4503569428432321 / 4503599627370496)"
    by (subst rd_eval [where m = 53]) (simp_all add: round_even_def Let_def)
  have e5: "(67108639 / 67108864) * (67108639 / 67108864) = ((4503569428432321 / 4503599627370496) :: real)" by simp
  have o5: "fmul (67108639 / 67108864) (67108639 / 67108864) = (4503569428432321 / 4503599627370496)" unfolding fmul_def e5 by (rule r5)
  have r6: "rd ((302228414984100965921119 / 302231454903657293676544) :: real) = (4503554329039171 / 4503599627370496)"
    by (subst rd_eval [where m = 53]) (simp_all add: round_even_def Let_def)
  have e6: "(4503569428432321 / 4503599627370496) * (67108639 / 67108864) = ((302228414984100965921119 / 302231454903657293676544) :: real)" by simp
  have o6: "fmul (4503569428432321 / 4503599627370496) (67108639 / 67108864) = (4503554329039171 / 4503599627370496)" unfolding fmul_def e6 by (rule r6)
  have r7: "rd ((201325917 / 33554432) :: real) = (201325917 / 33554432)"
    by (subst rd_eval [where m = 50]) (simp_all add: round_even_def Let_def)
  have e7: "(67108639 / 67108864) * 6 = ((201325917 / 33554432) :: real)" by simp
  have o7: "fmul (67108639 / 67108864) 6 = (201325917 / 33554432)" unfolding fmul_def e7 by (rule r7)
  have r8: "rd ((- (301990563 / 33554432)) :: real) = (- (301990563 / 33554432))"
    by (subst rd_eval [where m = 49]) (simp_all add: round_even_def Let_def)
  have e8: "(201325917 / 33554432) - 15 = ((- (301990563 / 33554432)) :: real)" by simp
  have o8: "fsub (201325917 / 33554432) 15 = (- (301990563 / 33554432))" unfolding fsub_def e8 by (rule r8)
  have r9: "rd ((- (20266175673773757 / 2251799813685248)) :: real) = (- (5066543918443439 / 562949953421312))"
    by (subst rd_eval [where m = 49]) (simp_all add: round_even_def Let_def)
  have e9: "(67108639 / 67108864) * (- (301990563 / 33554432)) = ((- (20266175673773757 / 2251799813685248)) :: real)" by simp
  have o9: "fmul (67108639 / 67108864) (- (301990563 / 33554432)) = (- (5066543918443439 / 562949953421312))" unfolding fmul_def e9 by (rule r9)
  have r10: "rd ((562955615769681 / 562949953421312) :: real) = (562955615769681 / 562949953421312)"
    by (subst rd_eval [where m = 52]) (simp_all add: round_even_def Let_def)
  have e10: "(- (5066543918443439 / 562949953421312)) + 10 = ((562955615769681 / 562949953421312) :: real)" by simp
  have o10: "fadd (- (5066543918443439 / 562949953421312)) 10 = (562955615769681 / 562949953421312)" unfolding fadd_def e10 by (rule r10)
  have r11: "rd ((2535301200456459068924363174451 / 2535301200456458802993406410752) :: real) = 1"
    by (subst rd_eval [where m = 52]) (simp_all add: round_even_def Let_def)
  have e11: "(4503554329039171 / 4503599627370496) * (562955615769681 / 562949953421312) = ((2535301200456459068924363174451 / 2535301200456458802993406410752) :: real)" by simp
  have o11: "fmul (4503554329039171 / 4503599627370496) (562955615769681 / 562949953421312) = 1" unfolding fmul_def e11 by (rule r11)
  show ?thesis
    by (simp add: progress_def ANIMATION_DURATION_def clamp_def smootherstep_def Let_def
        o1 o2 o3 o4 o5 o6 o7 o8 o9 o10 o11)
qed

lemma progress_dip: "progress (2097145 / 262144) = (9007199254740989 / 9007199254740992)"
proof -
  have r1: "rd ((2097145 / 2097152) :: real) = (2097145 / 2097152)"
    by (subst rd_eval [where m = 53]) (simp_all add: round_even_def Let_def)
  have e1: "(2097145 / 262144) / 8 = ((2097145 / 2097152) :: real)" by simp
  have o1: "fdiv (2097145 / 262144) 8 = (2097145 / 2097152)" unfolding fdiv_def e1 by (rule r1)
  have r2: "rd ((2097145 / 2097152) :: real) = (2097145 / 2097152)"
    by (subst rd_eval [where m = 53]) (simp_all add: round_even_def Let_def)
  have e2: "(2097145 / 2097152) - 0 = ((2097145 / 2097152) :: real)" by simp
  have o2: "fsub (2097145 / 2097152) 0 = (2097145 / 2097152)" unfolding fsub_def e2 by (rule r2)
  have r3: "rd (1 :: real) = 1"
    by (subst rd_eval [where m = 52]) (simp_all add: round_even_def Let_def)
  have e3: "1 - 0 = (1 :: real)" by simp
  have o3: "fsub 1 0 = 1" unfolding fsub_def e3 by (rule r3)
  have r4: "rd ((2097145 / 2097152) :: real) = (2097145 / 2097152)"
    by (subst rd_eval [where m = 53]) (simp_all add: round_even_def Let_def)
  have e4: "(2097145 / 2097152) / 1 = ((2097145 / 2097152) :: real)" by simp
  have o4: "fdiv (2097145 / 2097152) 1 = (2097145 / 2097152)" unfolding fdiv_def e4 by (rule r4)
  have r5: "rd ((4398017151025 / 4398046511104) :: real) = (4398017151025 / 4398046511104)"
    by (subst rd_eval [where m = 53]) (simp_all add: round_even_def Let_def)
  have e5: "(2097145 / 2097152) * (2097145 / 2097152) = ((4398017151025 / 4398046511104) :: real)" by simp
  have o5: "fmul (2097145 / 2097152) (2097145 / 2097152) = (4398017151025 / 4398046511104)" unfolding fmul_def e5 by (rule r5)
  have r6: "rd ((9223279678186323625 / 9223372036854775808) :: real) = (4398002471059 / 4398046511104)"
    by (subst rd_eval [where m = 53]) (simp_all add: round_even_def Let_def)
  have e6: "(4398017151025 / 4398046511104) * (2097145 / 2097152) = ((9223279678186323625 / 9223372036854775808) :: real)" by simp
  have o6: "fmul (4398017151025 / 4398046511104) (2097145 / 2097152) = (4398002471059 / 4398046511104)" unfolding fmul_def e6 by (rule r6)
  have r7: "rd ((6291435 / 1048576) :: real) = (6291435 / 1048576)"
    by (subst rd_eval [where m = 50]) (simp_all add: round_even_def Let_def)
  have e7: "(2097145 / 2097152) * 6 = ((6291435 / 1048576) :: real)" by simp
  have o7: "fmul (2097145 / 2097152) 6 = (6291435 / 1048576)" unfolding fmul_def e7 by (rule r7)
  have r8: "rd ((- (9437205 / 1048576)) :: real) = (- (9437205 / 1048576))"
    by (subst rd_eval [where m = 49]) (simp_all add: round_even_def Let_def)
  have e8: "(6291435 / 1048576) - 15 = ((- (9437205 / 1048576)) :: real)" by simp
  have o8: "fsub (6291435 / 1048576) 15 = (- (9437205 / 1048576))" unfolding fsub_def e8 by (rule r8)
  have r9: "rd ((- (19791187279725 / 2199023255552)) :: real) = (- (19791187279725 / 2199023255552))"
    by (subst rd_eval [where m = 49]) (simp_all add: round_even_def Let_def)
  have e9: "(2097145 / 2097152) * (- (9437205 / 1048576)) = ((- (19791187279725 / 2199023255552)) :: real)" by simp
  have o9: "fmul (2097145 / 2097152) (- (9437205 / 1048576)) = (- (19791187279725 / 2199023255552))" unfolding fmul_def e9 by (rule r9)
  have r10: "rd ((2199045275795 / 2199023255552) :: real) = (2199045275795 / 2199023255552)"
    by (subst rd_eval [where m = 52]) (simp_all add: round_even_def Let_def)
  have e10: "(- (19791187279725 / 2199023255552)) + 10 = ((2199045275795 / 2199023255552) :: real)" by simp
  have o10: "fadd (- (19791187279725 / 2199023255552)) 10 = (2199045275795 / 2199023255552)" unfolding fadd_def e10 by (rule r10)
  have r11: "rd ((9671406556917030160716905 / 9671406556917033397649408) :: real) = (9007199254740989 / 9007199254740992)"
    by (subst rd_eval [where m = 53]) (simp_all add: round_even_def Let_def)
  have e11: "(4398002471059 / 4398046511104) * (2199045275795 / 2199023255552) = ((9671406556917030160716905 / 9671406556917033397649408) :: real)" by simp
  have o11: "fmul (4398002471059 / 4398046511104) (2199045275795 / 2199023255552) = (9007199254740989 / 9007199254740992)" unfolding fmul_def e11 by (rule r11)
  show ?thesis
    by (simp add: progress_def ANIMATION_DURATION_def clamp_def smootherstep_def Let_def
        o1 o2 o3 o4 o5 o6 o7 o8 o9 o10 o11)
qed

lemma rd_overshoot_time: "rd (67108863 / 8388608) = 67108863 / 8388608"
  by (subst rd_eval [where m = 50]) (simp_all add: round_even_def Let_def)

section \<open>Properties of the frames\<close>

lemma startTimeRef_frame:
  "startTimeRef (snd (frame lib s clock delta)) = Some (startTime s clock)"
  by (simp add: frame_def Let_def)

lemma startTimeRef_frames:
  "startTimeRef s = Some t \<Longrightarrow> startTimeRef (frames lib s fs) = Some t"
  by (induction fs arbitrary: s) (auto simp: startTimeRef_frame startTime_def)

lemma eased_started: "startTimeRef s = Some t0 \<Longrightarrow> eased s c = progress (fsub c t0)"
  by (simp add: eased_def elapsed_def startTime_def)

lemma ninoProgress_inside: "\<not> outside (ninoProgress e)"
  by (simp add: outside_def ninoProgress_def min_def max_def)

lemma frame_throws_iff:
  "fst (frame lib s clock delta) = Some TypeError \<longleftrightarrow> outside (eased s clock)"
  by (simp add: frame_def Let_def jaxProgress_def ninoProgress_inside)

lemma frame_writes_frame: "frame_writes s (snd (frame lib s clock delta))"
  by (simp add: frame_writes_def frame_def Let_def)

lemma persistent_frame:
  "curve (snd (frame lib s clock delta)) = curve s
   \<and> roadGeometry (snd (frame lib s clock delta)) = roadGeometry s
   \<and> grassMatrices (snd (frame lib s clock delta)) = grassMatrices s
   \<and> stones (snd (frame lib s clock delta)) = stones s
   \<and> trees (snd (frame lib s clock delta)) = trees s"
  by (simp add: frame_def Let_def)

lemma persistent_frames:
  "curve (frames lib s fs) = curve s
   \<and> roadGeometry (frames lib s fs) = roadGeometry s
   \<and> grassMatrices (frames lib s fs) = grassMatrices s
   \<and> stones (frames lib s fs) = stones s
   \<and> trees (frames lib s fs) = trees s"
  by (induction fs arbitrary: s) (auto simp: persistent_frame)

text \<open>
  The store after a first frame at clock \<open>0\<close>, and the progress of a frame that follows at
  clock \<open>7.9999998807907104\<close>, the double \<open>8 - 2^-23\<close>.
\<close>

lemma first_frame_at_zero:
  "startTimeRef (snd (frame chord_lib (mounted chord_lib [] [] []) 0 (1 / 60))) = Some 0
   \<and> cachedProgressRef (snd (frame chord_lib (mounted chord_lib [] [] []) 0 (1 / 60))) = 0
   \<and> reported (snd (frame chord_lib (mounted chord_lib [] [] []) 0 (1 / 60))) = []"
proof -
  have "eased (mounted chord_lib [] [] []) 0 = 0"
    by (simp add: eased_def elapsed_def startTime_def mounted_def fsub_def rd_zero progress_zero)
  then show ?thesis by (simp add: frame_def Let_def startTime_def mounted_def)
qed

lemma eased_overshoot:
  "eased (snd (frame chord_lib (mounted chord_lib [] [] []) 0 (1 / 60))) (67108863 / 8388608) = (2251799813685249 / 2251799813685248)"
proof -
  have "startTimeRef (snd (frame chord_lib (mounted chord_lib [] [] []) 0 (1 / 60))) = Some 0"
    using first_frame_at_zero by simp
  then have "eased (snd (frame chord_lib (mounted chord_lib [] [] []) 0 (1 / 60))) (67108863 / 8388608) = progress (fsub (67108863 / 8388608) 0)"
    by (rule eased_started)
  also have "fsub (67108863 / 8388608) 0 = (67108863 / 8388608)" by (simp add: fsub_def rd_overshoot_time)
  finally show ?thesis by (simp only: progress_overshoot)
qed

text \<open>
  C1. The first frame fixes the start time. At every later frame the elapsed time \<open>t\<close> is
  the clock minus that start, the progress is \<open>smootherstep(clamp(t / 8, 0, 1), 0, 1)\<close>, and
  it is \<open>1\<close> from \<open>t = 8\<close> on.
\<close>

theorem progress_of_elapsed_time:
  assumes "startTimeRef s0 = None"
  shows "eased s0 c0 = 0
         \<and> elapsed (frames lib (snd (frame lib s0 c0 d0)) fs) c = fsub c c0
         \<and> eased (frames lib (snd (frame lib s0 c0 d0)) fs) c
             = smootherstep (clamp (fdiv (fsub c c0) 8) 0 1) 0 1
         \<and> (8 \<le> c - c0 \<longrightarrow> eased (frames lib (snd (frame lib s0 c0 d0)) fs) c = 1)
         \<and> (8 \<le> elapsed (frames lib (snd (frame lib s0 c0 d0)) fs) c
              \<longrightarrow> eased (frames lib (snd (frame lib s0 c0 d0)) fs) c = 1)"
proof -
  let ?s = "frames lib (snd (frame lib s0 c0 d0)) fs"
  have "startTimeRef (snd (frame lib s0 c0 d0)) = Some c0"
    using assms by (simp add: startTimeRef_frame startTime_def)
  then have st: "startTimeRef ?s = Some c0"
    by (rule startTimeRef_frames)
  have a: "eased s0 c0 = 0"
    using assms by (simp add: eased_def elapsed_def startTime_def fsub_def rd_zero progress_zero)
  have b: "elapsed ?s c = fsub c c0"
    using st by (simp add: elapsed_def startTime_def)
  have c: "eased ?s c = progress (fsub c c0)"
    using st by (rule eased_started)
  have d: "8 \<le> c - c0 \<longrightarrow> eased ?s c = 1"
    using c fsub_ge_8 [of c c0] progress_done [of "fsub c c0"] by simp
  have e: "8 \<le> elapsed ?s c \<longrightarrow> eased ?s c = 1"
    using b c progress_done [of "fsub c c0"] by simp
  show ?thesis
    using a b c d e by (simp add: progress_def ANIMATION_DURATION_def)
qed

theorem progress_of_elapsed_time_witness:
  "startTimeRef (mounted chord_lib [] [] []) = None
   \<and> (8::real) \<le> 11 - 2
   \<and> elapsed (frames chord_lib (snd (frame chord_lib (mounted chord_lib [] [] []) 2 (1 / 60)))
        [(5, 1 / 60)]) 11 = 9
   \<and> eased (frames chord_lib (snd (frame chord_lib (mounted chord_lib [] [] []) 2 (1 / 60)))
        [(5, 1 / 60)]) 11 = 1"
proof -
  have h: "startTimeRef (mounted chord_lib [] [] []) = None" by (simp add: mounted_def)
  have n: "fsub 11 2 = 9"
    unfolding fsub_def by (subst rd_eval [where m = 49]) (simp_all add: round_even_def Let_def)
  show ?thesis
    using h progress_of_elapsed_time [OF h, of 2 chord_lib "1 / 60" "[(5, 1 / 60)]" 11]
    by (simp add: n)
qed

text \<open>
  C2. The parameter of Jax is the eased progress. At clock \<open>7.9999998807907104\<close> after a
  first frame at clock \<open>0\<close> it is \<open>1 + 2^-51\<close>, above \<open>1\<close>: the call of \<open>getPointAt\<close> throws, and
  the groups of Jax and of Nino are not placed.
\<close>

theorem jax_parameter_above_one:
  "jaxProgress (eased (snd (frame chord_lib (mounted chord_lib [] [] []) 0 (1 / 60))) (67108863 / 8388608)) = 1 + 1 / 2 ^ 51
   \<and> 1 < jaxProgress (eased (snd (frame chord_lib (mounted chord_lib [] [] []) 0 (1 / 60))) (67108863 / 8388608))
   \<and> fst (frame chord_lib (snd (frame chord_lib (mounted chord_lib [] [] []) 0 (1 / 60))) (67108863 / 8388608) (1 / 60))
       = Some TypeError
   \<and> jaxRef (snd (frame chord_lib (snd (frame chord_lib (mounted chord_lib [] [] []) 0 (1 / 60))) (67108863 / 8388608) (1 / 60)))
       = jaxRef (snd (frame chord_lib (mounted chord_lib [] [] []) 0 (1 / 60)))
   \<and> ninoRef (snd (frame chord_lib (snd (frame chord_lib (mounted chord_lib [] [] []) 0 (1 / 60))) (67108863 / 8388608) (1 / 60)))
       = ninoRef (snd (frame chord_lib (mounted chord_lib [] [] []) 0 (1 / 60)))"
proof -
  let ?s = "snd (frame chord_lib (mounted chord_lib [] [] []) 0 (1 / 60))"
  have e: "eased ?s (67108863 / 8388608) = (2251799813685249 / 2251799813685248)" by (rule eased_overshoot)
  have o: "outside (eased ?s (67108863 / 8388608))" by (simp add: e outside_def)
  have 1: "jaxProgress (eased ?s (67108863 / 8388608)) = 1 + 1 / 2 ^ 51" by (simp add: jaxProgress_def e)
  have 2: "fst (frame chord_lib ?s (67108863 / 8388608) (1 / 60)) = Some TypeError"
    using o by (simp only: frame_throws_iff)
  have 3: "jaxRef (snd (frame chord_lib ?s (67108863 / 8388608) (1 / 60))) = jaxRef ?s"
    "ninoRef (snd (frame chord_lib ?s (67108863 / 8388608) (1 / 60))) = ninoRef ?s"
    using o by (simp_all add: frame_def [of chord_lib ?s] Let_def jaxProgress_def)
  show ?thesis using 1 2 3 by simp
qed

text \<open>
  C3. With frames at the clocks \<open>0\<close> and \<open>7.9999998807907104\<close>, \<open>onProgress\<close> receives
  \<open>1 + 2^-51\<close>, a value above \<open>1\<close>. And the progress is \<open>1\<close> at the elapsed time
  \<open>7.999973177909851\<close> and below \<open>1\<close> at the later \<open>7.999973297119141\<close>: it falls.
\<close>

theorem progress_reported_above_one:
  "reported (frames chord_lib (mounted chord_lib [] [] []) [(0, 1 / 60), ((67108863 / 8388608), 1 / 60)]) = [1 + 1 / 2 ^ 51]
   \<and> (67108639 / 8388608 :: real) < 2097145 / 262144
   \<and> progress (67108639 / 8388608) = 1
   \<and> progress (2097145 / 262144) = 1 - 3 / 2 ^ 53
   \<and> progress (2097145 / 262144) < progress (67108639 / 8388608)"
proof -
  let ?s = "snd (frame chord_lib (mounted chord_lib [] [] []) 0 (1 / 60))"
  have e: "eased ?s (67108863 / 8388608) = (2251799813685249 / 2251799813685248)" by (rule eased_overshoot)
  have c: "cachedProgressRef ?s = 0" "reported ?s = []" using first_frame_at_zero by simp_all
  have "reported (snd (frame chord_lib ?s (67108863 / 8388608) (1 / 60))) = [(2251799813685249 / 2251799813685248)]"
    by (simp add: frame_def [of chord_lib ?s] Let_def e c)
  then have 1: "reported (frames chord_lib (mounted chord_lib [] [] []) [(0, 1 / 60), ((67108863 / 8388608), 1 / 60)])
                  = [1 + 1 / 2 ^ 51]"
    by simp
  have 2: "progress (2097145 / 262144) = 1 - 3 / 2 ^ 53"
    by (simp add: progress_dip)
  show ?thesis using 1 2 by (simp add: progress_before_dip)
qed



section \<open>The camera\<close>

lemma powr_fraction_bounds:
  assumes "0 < (a::real)" "a < 1" "0 < d"
  shows "0 < a powr d \<and> a powr d < 1"
proof -
  have "ln a < 0" using assms by simp
  then have "d * ln a < 0" using assms(3) by (simp add: mult_pos_neg)
  then have "exp (d * ln a) < 1" by simp
  then show ?thesis using assms(1) by (simp add: powr_def)
qed

text \<open>
  A frame that does not throw aims the camera at the point \<open>0.45\<close> above the path position
  of Jax, and moves its position towards \<open>desired\<close>, the path position plus the offset
  \<open>(-1.25, 0.62, 1.4)\<close> taken through the look-at matrix of the tangent at the parameter of
  Jax, by the factor \<open>1 - 0.0001\<^bsup>delta\<^esup>\<close>.
\<close>

lemma camera_follow_done:
  assumes "fst (frame lib s clock delta) = None"
  shows "cameraTarget (snd (frame lib s clock delta))
           = add_v (jaxPosition lib s clock) (Vector3 0 0.45 0)
   \<and> rotation (camera (snd (frame lib s clock delta)))
       = lookAt_camera lib (position (camera (snd (frame lib s clock delta))))
           (cameraTarget (snd (frame lib s clock delta)))
   \<and> position (camera (snd (frame lib s clock delta)))
       = lerp_v (position (camera s)) (desired lib s clock) (1 - 0.0001 powr delta)
   \<and> desired lib s clock
       = add_v (jaxPosition lib s clock)
           (applyMatrix4 lib (Vector3 (- 1.25) 0.62 1.4)
              (lookAt_matrix lib (basisMatrix s) (Vector3 0 0 0)
                 (normalize (getTangentAt lib (curve s) (jaxProgress (eased s clock))))
                 (Vector3 0 1 0)))"
proof -
  have n: "\<not> (outside (jaxProgress (eased s clock)) \<or> outside (ninoProgress (eased s clock)))"
    using assms by (auto simp: frame_def Let_def split: if_splits)
  have 1: "cameraTarget (snd (frame lib s clock delta))
            = add_v (jaxPosition lib s clock) (Vector3 0 0.45 0)"
    using n by (simp add: frame_def Let_def frame_cameraTarget_def)
  have 2: "camera (snd (frame lib s clock delta)) = frame_camera lib s clock delta (camera s)"
    using n by (simp add: frame_def Let_def)
  have 3: "desired lib s clock
       = add_v (jaxPosition lib s clock)
           (applyMatrix4 lib (Vector3 (- 1.25) 0.62 1.4)
              (lookAt_matrix lib (basisMatrix s) (Vector3 0 0 0)
                 (normalize (getTangentAt lib (curve s) (jaxProgress (eased s clock))))
                 (Vector3 0 1 0)))"
    by (simp add: desired_def frame_basisMatrix_def frame_tangent_def offset_def)
  show ?thesis
    unfolding 2 using 1 3 by (simp add: frame_camera_def Let_def frame_cameraTarget_def)
qed

text \<open>
  C7. At clock \<open>7.9999998807907104\<close> after a first frame at clock \<open>0\<close> the callback throws
  in \<open>getPointAt\<close>, before the lines of the camera: on this frame the camera is not aimed
  and not moved, and \<open>cameraTarget\<close> is not written.
\<close>

theorem camera_not_moved_when_frame_throws:
  "fst (frame chord_lib (snd (frame chord_lib (mounted chord_lib [] [] []) 0 (1 / 60))) (67108863 / 8388608) (1 / 60))
     = Some TypeError
   \<and> camera (snd (frame chord_lib (snd (frame chord_lib (mounted chord_lib [] [] []) 0 (1 / 60))) (67108863 / 8388608) (1 / 60)))
       = camera (snd (frame chord_lib (mounted chord_lib [] [] []) 0 (1 / 60)))
   \<and> cameraTarget (snd (frame chord_lib (snd (frame chord_lib (mounted chord_lib [] [] []) 0 (1 / 60))) (67108863 / 8388608) (1 / 60)))
       = cameraTarget (snd (frame chord_lib (mounted chord_lib [] [] []) 0 (1 / 60)))
   \<and> basisMatrix (snd (frame chord_lib (snd (frame chord_lib (mounted chord_lib [] [] []) 0 (1 / 60))) (67108863 / 8388608) (1 / 60)))
       = basisMatrix (snd (frame chord_lib (mounted chord_lib [] [] []) 0 (1 / 60)))"
proof -
  let ?s = "snd (frame chord_lib (mounted chord_lib [] [] []) 0 (1 / 60))"
  have o: "outside (eased ?s (67108863 / 8388608))" by (simp add: eased_overshoot outside_def)
  have 1: "fst (frame chord_lib ?s (67108863 / 8388608) (1 / 60)) = Some TypeError"
    using o by (simp only: frame_throws_iff)
  have 2: "camera (snd (frame chord_lib ?s (67108863 / 8388608) (1 / 60))) = camera ?s"
    "cameraTarget (snd (frame chord_lib ?s (67108863 / 8388608) (1 / 60))) = cameraTarget ?s"
    "basisMatrix (snd (frame chord_lib ?s (67108863 / 8388608) (1 / 60))) = basisMatrix ?s"
    using o by (simp_all add: frame_def [of chord_lib ?s] Let_def jaxProgress_def)
  show ?thesis using 1 2 by simp
qed

section \<open>The effect of a frame\<close>

text \<open>
  The first frame writes the start time, which is neither a transform nor the cached
  progress.
\<close>

theorem first_frame_writes_start_time:
  "\<not> transforms_only (mounted chord_lib [] [] [])
        (snd (frame chord_lib (mounted chord_lib [] [] []) 0 (1 / 60)))"
proof
  assume a: "transforms_only (mounted chord_lib [] [] [])
               (snd (frame chord_lib (mounted chord_lib [] [] []) 0 (1 / 60)))"
  have "startTimeRef (snd (frame chord_lib (mounted chord_lib [] [] []) 0 (1 / 60)))
         = startTimeRef (mounted chord_lib [] [] [])"
    using arg_cong [OF a [unfolded transforms_only_def], of startTimeRef] by simp
  then show False by (simp add: startTimeRef_frame mounted_def)
qed

text \<open>
  C8, amended. A frame writes the transforms of the three groups and of the camera, the
  cached progress, the start time, the scratch objects \<open>lookAhead\<close>, \<open>tangent\<close>,
  \<open>cameraTarget\<close> and \<open>basisMatrix\<close>, and reports through \<open>onProgress\<close>; nothing else. The
  curve with its control points, the buffers of the road and the placements of the scenery
  are the same after any number of frames.
\<close>

theorem frame_effect:
  "frame_writes s (snd (frame lib s clock delta))
   \<and> curve (frames lib s fs) = curve s
   \<and> points (curve (frames lib s fs)) = points (curve s)
   \<and> roadGeometry (frames lib s fs) = roadGeometry s
   \<and> grassMatrices (frames lib s fs) = grassMatrices s
   \<and> stones (frames lib s fs) = stones s
   \<and> trees (frames lib s fs) = trees s"
  using frame_writes_frame [of s lib clock delta] persistent_frames [of lib s fs] by simp

section \<open>Properties of the road\<close>

lemma length_concat_blocks:
  "(\<forall>x \<in> set xs. length (f x) = k) \<Longrightarrow> length (concat (map f xs)) = k * length xs"
  by (induction xs) auto

lemma block_of_concat:
  "(\<forall>x \<in> set xs. length (f x) = k) \<Longrightarrow> i < length xs \<Longrightarrow>
     take k (drop (k * i) (concat (map f xs))) = f (xs ! i)"
proof (induction xs arbitrary: i)
  case Nil
  then show ?case by simp
next
  case (Cons x xs)
  show ?case
  proof (cases i)
    case 0
    then show ?thesis using Cons.prems by simp
  next
    case (Suc j)
    have "k * i = length (f x) + k * j" using Cons.prems(1) Suc by simp
    then show ?thesis using Cons Suc by simp
  qed
qed

lemma length_road_vertices: "length (road_vertices lib c i) = 18"
  by (simp add: road_vertices_def raised_def Let_def)

lemma length_road_uvs: "length (road_uvs i) = 12"
  by (simp add: road_uvs_def)

lemma length_v_multiplyScalar: "length_v (multiplyScalar a k) = \<bar>k\<bar> * length_v a"
proof -
  have "vx a * k * (vx a * k) + vy a * k * (vy a * k) + vz a * k * (vz a * k)
          = k\<^sup>2 * (vx a * vx a + vy a * vy a + vz a * vz a)"
    by (simp add: power2_eq_square algebra_simps)
  then show ?thesis
    by (simp add: length_v_def multiplyScalar_def real_sqrt_mult)
qed

lemma length_v_nonneg: "0 \<le> length_v a"
  by (simp add: length_v_def)

lemma length_v_normalize: "length_v a \<noteq> 0 \<Longrightarrow> length_v (normalize a) = 1"
  using length_v_nonneg [of a] by (simp add: normalize_def length_v_multiplyScalar)

lemma length_v_zero_iff: "length_v a = 0 \<longleftrightarrow> vx a = 0 \<and> vy a = 0 \<and> vz a = 0"
proof -
  have "vx a * vx a + vy a * vy a + vz a * vz a = 0 \<longleftrightarrow> vx a = 0 \<and> vy a = 0 \<and> vz a = 0"
    using sum_squares_eq_zero_iff [of "vx a" "vy a"] 
    by (smt (verit) mult_eq_0_iff zero_le_square add_nonneg_eq_0_iff add_nonneg_nonneg)
  then show ?thesis by (simp add: length_v_def)
qed

text \<open>
  Where the two curve points of a division differ in \<open>x\<close> or in \<open>z\<close>, the offset \<open>right\<close> is
  horizontal, at a right angle to the direction and of length \<open>ROAD_WIDTH\<close>.
\<close>

lemma road_right_length:
  assumes "vx (road_next lib c i) \<noteq> vx (road_current lib c i)
           \<or> vz (road_next lib c i) \<noteq> vz (road_current lib c i)"
  shows "length_v (road_right lib c i) = 0.9"
proof -
  let ?d = "sub_v (road_next lib c i) (road_current lib c i)"
  have d: "vx ?d \<noteq> 0 \<or> vz ?d \<noteq> 0" using assms by (simp add: sub_v_def)
  then have l: "length_v ?d \<noteq> 0" by (auto simp: length_v_zero_iff)
  then have l': "0 < length_v ?d" using length_v_nonneg [of ?d] by linarith
  have "vx (road_dir lib c i) = vx ?d / length_v ?d" "vz (road_dir lib c i) = vz ?d / length_v ?d"
    using l by (simp_all add: road_dir_def normalize_def multiplyScalar_def)
  then have "vx (road_dir lib c i) \<noteq> 0 \<or> vz (road_dir lib c i) \<noteq> 0"
    using d l by simp
  then have "length_v (Vector3 (vz (road_dir lib c i)) 0 (- vx (road_dir lib c i))) \<noteq> 0"
    by (auto simp: length_v_zero_iff)
  then have "length_v (normalize (Vector3 (vz (road_dir lib c i)) 0 (- vx (road_dir lib c i)))) = 1"
    by (rule length_v_normalize)
  then show ?thesis
    by (simp add: road_right_def length_v_multiplyScalar ROAD_WIDTH_def)
qed

lemma road_right_horizontal:
  "vy (road_right lib c i) = 0
   \<and> vx (road_right lib c i) * vx (road_dir lib c i)
       + vz (road_right lib c i) * vz (road_dir lib c i) = 0"
  by (simp add: road_right_def normalize_def multiplyScalar_def)

text \<open>
  In the last division the parameter is \<open>89 / 89 = 1\<close>, the next parameter is cut down to
  \<open>1\<close> as well, the two curve points are one point and the direction is the zero vector,
  whatever the curve is.
\<close>

lemma road_last_division:
  "road_next lib c 89 = road_current lib c 89 \<and> road_right lib c 89 = Vector3 0 0 0"
proof -
  have t: "road_t 89 = 1" by (simp add: road_t_def divisions_def)
  have n: "road_next lib c 89 = road_current lib c 89"
    by (simp add: road_next_def road_current_def t divisions_def)
  have "road_dir lib c 89 = Vector3 0 0 0"
    by (simp add: road_dir_def n sub_v_def normalize_def multiplyScalar_def)
  then have "road_right lib c 89 = Vector3 0 0 0"
    by (simp add: road_right_def normalize_def multiplyScalar_def)
  with n show ?thesis by simp
qed

text \<open>
  The last of the 90 divisions is no quad: its offset has length \<open>0\<close>, not \<open>0.9\<close>, and its
  six vertices are one point.
\<close>

theorem road_last_division_degenerate:
  "length_v (road_right chord_lib scene_curve 89) = 0
   \<and> length_v (road_right chord_lib scene_curve 89) \<noteq> 0.9
   \<and> road_vertices chord_lib scene_curve 89
       = [6.2, 0.042, - 1.5, 6.2, 0.042, - 1.5, 6.2, 0.042, - 1.5,
          6.2, 0.042, - 1.5, 6.2, 0.042, - 1.5, 6.2, 0.042, - 1.5]"
proof -
  have r: "road_right chord_lib scene_curve 89 = Vector3 0 0 0"
    and n: "road_next chord_lib scene_curve 89 = road_current chord_lib scene_curve 89"
    using road_last_division [of chord_lib scene_curve] by simp_all
  have t: "road_t 89 = 1" by (simp add: road_t_def divisions_def)
  have c: "road_current chord_lib scene_curve 89 = Vector3 6.2 0.04 (- 1.5)"
    by (simp add: road_current_def t chord_lib_def scene_curve_def lerp_v_def)
  have "length_v (road_right chord_lib scene_curve 89) = 0"
    by (simp add: r length_v_def)
  moreover have "road_vertices chord_lib scene_curve 89
       = [6.2, 0.042, - 1.5, 6.2, 0.042, - 1.5, 6.2, 0.042, - 1.5,
          6.2, 0.042, - 1.5, 6.2, 0.042, - 1.5, 6.2, 0.042, - 1.5]"
    by (simp add: road_vertices_def Let_def r n c add_v_def sub_v_def raised_def)
  ultimately show ?thesis by simp
qed

text \<open>
  C4, amended. The road has 90 divisions. Each contributes two triangles: 6 vertices, 18
  position floats and 12 uv floats, on the curve points \<open>current\<close> and \<open>next\<close> moved by plus
  and minus \<open>right\<close>, every vertex raised by \<open>0.002\<close>. Where the two curve points of a
  division differ in \<open>x\<close> or in \<open>z\<close>, \<open>right\<close> is the horizontal perpendicular of the
  direction, of length \<open>0.9\<close>. The position attribute holds 1620 floats.
\<close>

theorem road_geometry:
  "length (position_attr (Road lib c)) = 1620
   \<and> length (uv_attr (Road lib c)) = 1080
   \<and> (\<forall>i < 90.
        take 18 (drop (18 * i) (position_attr (Road lib c)))
          = raised (add_v (road_current lib c i) (road_right lib c i))
            @ raised (sub_v (road_current lib c i) (road_right lib c i))
            @ raised (sub_v (road_next lib c i) (road_right lib c i))
            @ raised (add_v (road_current lib c i) (road_right lib c i))
            @ raised (sub_v (road_next lib c i) (road_right lib c i))
            @ raised (add_v (road_next lib c i) (road_right lib c i))
        \<and> take 12 (drop (12 * i) (uv_attr (Road lib c))) = [1, 0, 0, 0, 0, 1, 1, 0, 0, 1, 1, 1]
        \<and> road_current lib c i = getPointAt lib c (real i / 89)
        \<and> road_next lib c i = getPointAt lib c (min (real i / 89 + 1 / 89) 1)
        \<and> vy (road_right lib c i) = 0
        \<and> vx (road_right lib c i) * vx (road_dir lib c i)
            + vz (road_right lib c i) * vz (road_dir lib c i) = 0
        \<and> (vx (road_next lib c i) \<noteq> vx (road_current lib c i)
             \<or> vz (road_next lib c i) \<noteq> vz (road_current lib c i)
            \<longrightarrow> length_v (road_right lib c i) = 0.9))
   \<and> (\<forall>v. raised v = [vx v, vy v + 0.002, vz v])"
proof -
  have lv: "\<forall>i \<in> set [0..<divisions]. length (road_vertices lib c i) = 18"
    by (simp add: length_road_vertices)
  have lu: "\<forall>i \<in> set [0..<divisions]. length (road_uvs i) = 12"
    by (simp add: length_road_uvs)
  have 1: "length (position_attr (Road lib c)) = 1620"
    using length_concat_blocks [OF lv] by (simp add: Road_def Let_def divisions_def)
  have 2: "length (uv_attr (Road lib c)) = 1080"
    using length_concat_blocks [OF lu] by (simp add: Road_def Let_def divisions_def)
  have 3: "take 18 (drop (18 * i) (position_attr (Road lib c))) = road_vertices lib c i"
    if "i < 90" for i
    using block_of_concat [OF lv, of i] that by (simp add: Road_def Let_def divisions_def)
  have 4: "take 12 (drop (12 * i) (uv_attr (Road lib c))) = road_uvs i" if "i < 90" for i
    using block_of_concat [OF lu, of i] that by (simp add: Road_def Let_def divisions_def)
  have 5: "road_current lib c i = getPointAt lib c (real i / 89)
           \<and> road_next lib c i = getPointAt lib c (min (real i / 89 + 1 / 89) 1)" for i
    by (simp add: road_current_def road_next_def road_t_def divisions_def)
  show ?thesis
    using 1 2 3 4 5 road_right_horizontal [of lib c] road_right_length [of lib c]
    by (simp add: road_vertices_def road_uvs_def Let_def raised_def)
qed

theorem road_geometry_witness:
  "(0::nat) < 90
   \<and> vx (road_next chord_lib scene_curve 0) \<noteq> vx (road_current chord_lib scene_curve 0)
   \<and> road_current chord_lib scene_curve 0 = Vector3 (- 5.3) 0.12 3.1
   \<and> length_v (road_right chord_lib scene_curve 0) = 0.9
   \<and> take 12 (drop (12 * 0) (uv_attr (Road chord_lib scene_curve)))
       = [1, 0, 0, 0, 0, 1, 1, 0, 0, 1, 1, 1]"
proof -
  have c: "road_current chord_lib scene_curve 0 = Vector3 (- 5.3) 0.12 3.1"
    by (simp add: road_current_def road_t_def chord_lib_def scene_curve_def lerp_v_def)
  have n: "vx (road_next chord_lib scene_curve 0) = - 5.3 + 11.5 / 89"
    by (simp add: road_next_def road_t_def divisions_def chord_lib_def scene_curve_def
        lerp_v_def)
  have h: "vx (road_next chord_lib scene_curve 0) \<noteq> vx (road_current chord_lib scene_curve 0)"
    by (simp add: n c)
  have z: "(0::nat) < 90" by simp
  note g = road_geometry [of chord_lib scene_curve, THEN conjunct2, THEN conjunct2,
      THEN conjunct1, rule_format, OF z]
  have "length_v (road_right chord_lib scene_curve 0) = 0.9" using g h by blast
  moreover have "take 12 (drop (12 * 0) (uv_attr (Road chord_lib scene_curve)))
       = [1, 0, 0, 0, 0, 1, 1, 0, 0, 1, 1, 1]" using g by blast
  ultimately show ?thesis using h c by simp
qed

section \<open>Enclosures of the sine and the cosine\<close>

subsection \<open>Taylor polynomials\<close>

text \<open>
  On \<open>[0, 4/5]\<close> the polynomial of degree 7 is within \<open>2\<^bsup>-18\<^esup>\<close> of the sine, and the
  polynomial of degree 6 within \<open>2\<^bsup>-17\<^esup>\<close> of the cosine.
\<close>

lemma sin_poly9:
  fixes x :: real
  shows "(\<Sum>m<9. sin_coeff m * x ^ m) = x * (5040 - (x * x) * (840 - (x * x) * (42 - x * x))) / 5040"
proof -
  have "(\<Sum>m<9. sin_coeff m * x ^ m) = x - x ^ 3 / 6 + x ^ 5 / 120 - x ^ 7 / 5040"
    by (simp add: lessThan_nat_numeral lessThan_Suc sin_coeff_def fact_numeral)
  also have "\<dots> = x * (5040 - (x * x) * (840 - (x * x) * (42 - x * x))) / 5040"
    by (simp add: power_numeral_reduce field_simps)
  finally show ?thesis .
qed

lemma cos_poly8:
  fixes x :: real
  shows "(\<Sum>m<8. cos_coeff m * x ^ m) = (720 - (x * x) * (360 - (x * x) * (30 - x * x))) / 720"
proof -
  have "(\<Sum>m<8. cos_coeff m * x ^ m) = 1 - x ^ 2 / 2 + x ^ 4 / 24 - x ^ 6 / 720"
    by (simp add: lessThan_nat_numeral lessThan_Suc cos_coeff_def fact_numeral)
  also have "\<dots> = (720 - (x * x) * (360 - (x * x) * (30 - x * x))) / 720"
    by (simp add: power_numeral_reduce field_simps)
  finally show ?thesis .
qed

lemma sin_poly_bound:
  fixes f :: real
  assumes "0 \<le> f" "f \<le> 4 / 5"
  shows "\<bar>sin f - f * (5040 - (f * f) * (840 - (f * f) * (42 - f * f))) / 5040\<bar> \<le> 1 / 262144"
proof -
  have "f ^ 9 \<le> (4 / 5) ^ 9" using assms by (intro power_mono) auto
  moreover have "(4 / 5 :: real) ^ 9 \<le> 362880 / 262144" by (simp add: power_divide)
  ultimately have "f ^ 9 \<le> 362880 / 262144" by linarith
  then have "inverse (fact 9) * \<bar>f\<bar> ^ 9 \<le> 1 / 262144"
    using assms by (simp add: fact_numeral)
  with Maclaurin_sin_bound [of f 9] show ?thesis by (simp only: sin_poly9)
qed

lemma cos_poly_bound:
  fixes f :: real
  assumes "0 \<le> f" "f \<le> 4 / 5"
  shows "\<bar>cos f - (720 - (f * f) * (360 - (f * f) * (30 - f * f))) / 720\<bar> \<le> 2 / 262144"
proof -
  obtain t where t: "cos f = (\<Sum>m<8. cos_coeff m * f ^ m) + (cos (t + 1 / 2 * real 8 * pi) / fact 8) * f ^ 8"
    using Maclaurin_cos_expansion [of f 8] by blast
  have p: "f ^ 8 \<le> (4 / 5) ^ 8" using assms by (intro power_mono) auto
  define r where "r = (cos (t + 1 / 2 * real 8 * pi) / fact 8) * f ^ 8"
  have "\<bar>r\<bar> = \<bar>cos (t + 1 / 2 * real 8 * pi)\<bar> * (f ^ 8 / fact 8)"
    using assms by (simp add: r_def abs_mult)
  also have "\<dots> \<le> 1 * (f ^ 8 / fact 8)"
    using assms by (intro mult_right_mono abs_cos_le_one) simp
  also have "\<dots> \<le> 1 * ((4 / 5) ^ 8 / fact 8)"
    using p by (simp add: divide_right_mono)
  also have "\<dots> \<le> 2 / 262144" by (simp add: fact_numeral power_divide)
  finally have "\<bar>r\<bar> \<le> 2 / 262144" .
  moreover have "cos f - (720 - (f * f) * (360 - (f * f) * (30 - f * f))) / 720 = r"
    using t unfolding r_def cos_poly8 by simp
  ultimately show ?thesis by simp
qed

subsection \<open>Bounds of \<open>pi\<close>\<close>

text \<open>
  The sine grows up to a quarter turn and is \<open>1/2\<close> at \<open>pi / 6\<close>; its values at \<open>0.5235985\<close>
  and at \<open>0.5235988\<close> lie on the two sides of \<open>1/2\<close>.
\<close>

lemma sin_poly11:
  fixes x :: real
  shows "(\<Sum>m<11. sin_coeff m * x ^ m)
           = x - x ^ 3 / 6 + x ^ 5 / 120 - x ^ 7 / 5040 + x ^ 9 / 362880"
  by (simp add: lessThan_nat_numeral lessThan_Suc sin_coeff_def fact_numeral)

lemma sin_sixth_lower: "sin (5235985 / 10000000 :: real) < 1 / 2"
proof -
  let ?x = "5235985 / 10000000 :: real"
  have "sin ?x \<le> (\<Sum>m<11. sin_coeff m * ?x ^ m) + inverse (fact 11) * \<bar>?x\<bar> ^ 11"
    using Maclaurin_sin_bound [of ?x 11] by linarith
  also have "\<dots> < 1 / 2"
    unfolding sin_poly11 by (simp add: fact_numeral power_divide)
  finally show ?thesis .
qed

lemma sin_sixth_upper: "1 / 2 < sin (5235988 / 10000000 :: real)"
proof -
  let ?x = "5235988 / 10000000 :: real"
  have "1 / 2 < (\<Sum>m<11. sin_coeff m * ?x ^ m) - inverse (fact 11) * \<bar>?x\<bar> ^ 11"
    unfolding sin_poly11 by (simp add: fact_numeral power_divide)
  also have "\<dots> \<le> sin ?x"
    using Maclaurin_sin_bound [of ?x 11] by linarith
  finally show ?thesis .
qed

lemma pi_bounds: "3.141591 < pi \<and> pi < 3.1415928"
proof -
  have h: "2 \<le> pi" by (rule pi_ge_two)
  have "(5235985 / 10000000 :: real) < pi / 6"
  proof (rule ccontr)
    assume "\<not> (5235985 / 10000000 :: real) < pi / 6"
    then have "pi / 6 \<le> 5235985 / 10000000" by simp
    then have "sin (pi / 6) \<le> sin (5235985 / 10000000 :: real)"
      using h by (intro sin_monotone_2pi_le) auto
    then show False using sin_sixth_lower by (simp add: sin_30)
  qed
  moreover have "pi / 6 < (5235988 / 10000000 :: real)"
  proof (rule ccontr)
    assume "\<not> pi / 6 < (5235988 / 10000000 :: real)"
    then have "5235988 / 10000000 \<le> pi / 6" by simp
    then have "sin (5235988 / 10000000 :: real) \<le> sin (pi / 6)"
      using h by (intro sin_monotone_2pi_le) auto
    then show False using sin_sixth_upper by (simp add: sin_30)
  qed
  ultimately show ?thesis by simp
qed

subsection \<open>Arithmetic on enclosures\<close>

lemma drop_bit_18_bounds:
  "real_of_int (drop_bit 18 k) \<le> real_of_int k / 262144
   \<and> real_of_int k / 262144 \<le> real_of_int (drop_bit 18 k) + 1"
  using real_of_int_div4 [of k 262144] real_of_int_div3 [of k 262144]
  by (simp add: drop_bit_eq_div)

lemma encl_mul:
  assumes "encl i x" "encl j y" "0 \<le> fst i" "0 \<le> fst j"
  shows "encl (iv_mul i j) (x * y)"
proof -
  let ?S = "262144 :: real"
  have x: "real_of_int (fst i) \<le> x * ?S" "x * ?S \<le> real_of_int (snd i)"
    and y: "real_of_int (fst j) \<le> y * ?S" "y * ?S \<le> real_of_int (snd j)"
    using assms(1,2) by (simp_all add: encl_def)
  have i0: "0 \<le> real_of_int (fst i)" and j0: "0 \<le> real_of_int (fst j)"
    using assms(3,4) by simp_all
  have lo: "real_of_int (fst i) * real_of_int (fst j) \<le> (x * ?S) * (y * ?S)"
    using x y i0 j0 by (intro mult_mono) linarith+
  have hi: "(x * ?S) * (y * ?S) \<le> real_of_int (snd i) * real_of_int (snd j)"
    using x y i0 j0 by (intro mult_mono) linarith+
  have "real_of_int (drop_bit 18 (fst i * fst j)) \<le> real_of_int (fst i * fst j) / ?S"
    using drop_bit_18_bounds by blast
  also have "\<dots> \<le> (x * ?S) * (y * ?S) / ?S"
    using lo by (simp add: divide_right_mono)
  finally have 1: "real_of_int (drop_bit 18 (fst i * fst j)) \<le> x * y * ?S" by simp
  have "(x * ?S) * (y * ?S) / ?S \<le> real_of_int (snd i * snd j) / ?S"
    using hi by (simp add: divide_right_mono)
  also have "\<dots> \<le> real_of_int (drop_bit 18 (snd i * snd j)) + 1"
    using drop_bit_18_bounds by blast
  finally have 2: "x * y * ?S \<le> real_of_int (drop_bit 18 (snd i * snd j) + 1)" by simp
  show ?thesis using 1 2 by (simp add: encl_def iv_mul_def)
qed

lemma encl_csub: "encl i x \<Longrightarrow> encl (iv_csub c i) (real_of_int c - x)"
  by (simp add: encl_def iv_csub_def algebra_simps)

lemma encl_scale: "0 \<le> c \<Longrightarrow> encl i x \<Longrightarrow> encl (iv_scale c i) (real_of_int c * x)"
  by (simp add: encl_def iv_scale_def mult_left_mono mult.assoc)

lemma encl_div:
  assumes "0 < c" "encl i x"
  shows "encl (iv_div i c) (x / real_of_int c)"
proof -
  let ?S = "262144 :: real"
  have c: "0 < real_of_int c" using assms(1) by simp
  have "real_of_int (fst i div c) \<le> real_of_int (fst i) / real_of_int c"
    by (rule real_of_int_div4)
  also have "\<dots> \<le> x * ?S / real_of_int c"
    using assms(2) c by (simp add: encl_def divide_right_mono)
  finally have 1: "real_of_int (fst i div c) \<le> x / real_of_int c * ?S" by simp
  have "x * ?S / real_of_int c \<le> real_of_int (snd i) / real_of_int c"
    using assms(2) c by (simp add: encl_def divide_right_mono)
  also have "\<dots> \<le> real_of_int (snd i div c) + 1"
    using real_of_int_div3 [of "snd i" c] by linarith
  finally have 2: "x / real_of_int c * ?S \<le> real_of_int (snd i div c + 1)" by simp
  show ?thesis using 1 2 by (simp add: encl_def iv_div_def)
qed

lemma encl_widen:
  assumes "encl i x" "\<bar>x' - x\<bar> \<le> real_of_int e / 262144"
  shows "encl (iv_widen i e) x'"
proof -
  have "\<bar>x' * 262144 - x * 262144\<bar> \<le> real_of_int e"
    using assms(2) by (simp add: abs_if field_simps split: if_splits)
  then show ?thesis using assms(1) by (simp add: encl_def iv_widen_def abs_if split: if_splits)
qed

lemma encl_nonneg: "encl i x \<Longrightarrow> 0 \<le> fst i \<Longrightarrow> 0 \<le> x"
proof -
  assume "encl i x" "0 \<le> fst i"
  then have "0 \<le> x * 262144" by (simp add: encl_def)
  then show ?thesis by simp
qed

text \<open>The enclosures that \<open>sin_iv\<close> and \<open>cos_iv\<close> return hold the sine and the cosine.\<close>

lemma sin_iv_sound:
  assumes "sin_iv f y = Some s" "encl f x" "encl y (x * x)" "x \<le> 4 / 5"
  shows "encl s (sin x) \<and> 0 \<le> fst s \<and> 0 \<le> x"
proof -
  define h1 where "h1 = iv_csub 42 y"
  define h2 where "h2 = iv_csub 840 (iv_mul y h1)"
  define h3 where "h3 = iv_csub 5040 (iv_mul y h2)"
  have c: "0 \<le> fst f" "0 \<le> fst y" "0 \<le> fst h1" "0 \<le> fst h2" "0 \<le> fst h3" "0 \<le> fst s"
    and s: "s = iv_widen (iv_div (iv_mul f h3) 5040) 1"
    using assms(1) unfolding sin_iv_def h1_def h2_def h3_def Let_def
    by (auto split: if_splits)
  have x0: "0 \<le> x" using assms(2) c(1) by (rule encl_nonneg)
  have e1: "encl h1 (42 - x * x)"
    unfolding h1_def using encl_csub [OF assms(3), of 42] by simp
  have e2: "encl h2 (840 - (x * x) * (42 - x * x))"
    unfolding h2_def using encl_csub [OF encl_mul [OF assms(3) e1 c(2) c(3)], of 840] by simp
  have e3: "encl h3 (5040 - (x * x) * (840 - (x * x) * (42 - x * x)))"
    unfolding h3_def using encl_csub [OF encl_mul [OF assms(3) e2 c(2) c(4)], of 5040] by simp
  have e4: "encl (iv_div (iv_mul f h3) 5040)
              (x * (5040 - (x * x) * (840 - (x * x) * (42 - x * x))) / 5040)"
    using encl_div [OF _ encl_mul [OF assms(2) e3 c(1) c(5)], of 5040] by simp
  have "encl s (sin x)"
    unfolding s using e4 sin_poly_bound [OF x0 assms(4)] by (intro encl_widen) simp_all
  then show ?thesis using c(6) x0 by simp
qed

lemma cos_iv_sound:
  assumes "cos_iv y = Some c" "encl y (x * x)" "0 \<le> x" "x \<le> 4 / 5"
  shows "encl c (cos x) \<and> 0 \<le> fst c"
proof -
  define g1 where "g1 = iv_csub 30 y"
  define g2 where "g2 = iv_csub 360 (iv_mul y g1)"
  define g3 where "g3 = iv_csub 720 (iv_mul y g2)"
  have k: "0 \<le> fst y" "0 \<le> fst g1" "0 \<le> fst g2" "0 \<le> fst c"
    and c: "c = iv_widen (iv_div g3 720) 2"
    using assms(1) unfolding cos_iv_def g1_def g2_def g3_def Let_def
    by (auto split: if_splits)
  have e1: "encl g1 (30 - x * x)"
    unfolding g1_def using encl_csub [OF assms(2), of 30] by simp
  have e2: "encl g2 (360 - (x * x) * (30 - x * x))"
    unfolding g2_def using encl_csub [OF encl_mul [OF assms(2) e1 k(1) k(2)], of 360] by simp
  have e3: "encl g3 (720 - (x * x) * (360 - (x * x) * (30 - x * x)))"
    unfolding g3_def using encl_csub [OF encl_mul [OF assms(2) e2 k(1) k(3)], of 720] by simp
  have e4: "encl (iv_div g3 720) ((720 - (x * x) * (360 - (x * x) * (30 - x * x))) / 720)"
    using encl_div [OF _ e3, of 720] by simp
  have "encl c (cos x)"
    unfolding c using e4 cos_poly_bound [OF assms(3,4)] by (intro encl_widen) simp_all
  then show ?thesis using k(4) by simp
qed

subsection \<open>The rest of the angle and the distance\<close>

text \<open>
  The generator divides by \<open>2147483646 = 2 * (2^30 - 1)\<close>. Dividing by a power of two instead
  is a shift, and it is off by less than one unit of the last place.
\<close>

lemma drop_bit_bounds:
  "real_of_int (drop_bit m k) \<le> real_of_int k / 2 ^ m
   \<and> real_of_int k / 2 ^ m \<le> real_of_int (drop_bit m k) + 1"
  using real_of_int_div4 [of k "2 ^ m"] real_of_int_div3 [of k "2 ^ m"]
  by (simp add: drop_bit_eq_div)

lemma encl_rest:
  assumes "0 \<le> n" "n \<le> 4 * 2147483646"
  shows "encl (drop_bit 14 n, drop_bit 14 n + 2) (real_of_int n / (2 * 2147483646))"
proof -
  have b: "real_of_int (drop_bit 14 n) \<le> real_of_int n / 16384"
    "real_of_int n / 16384 \<le> real_of_int (drop_bit 14 n) + 1"
    using drop_bit_bounds [of 14 n] by simp_all
  have n: "0 \<le> real_of_int n" "real_of_int n \<le> 4 * 2147483646" using assms by simp_all
  have 1: "real_of_int n / 16384 \<le> real_of_int n / (2 * 2147483646) * 262144"
    using n by (simp add: field_simps)
  have 2: "real_of_int n / (2 * 2147483646) * 262144 \<le> real_of_int n / 16384 + 1"
    using n by (simp add: field_simps)
  have "real_of_int (drop_bit 14 n) \<le> real_of_int n / (2 * 2147483646) * 262144"
    using b(1) 1 by linarith
  moreover have "real_of_int n / (2 * 2147483646) * 262144 \<le> real_of_int (drop_bit 14 n) + 2"
    using b(2) 2 by linarith
  then have "real_of_int n / (2 * 2147483646) * 262144 \<le> real_of_int (drop_bit 14 n + 2)"
    by (simp only: of_int_add of_int_numeral)
  ultimately show ?thesis unfolding encl_def fst_conv snd_conv by blast
qed

lemma encl_distance:
  assumes "1 \<le> d" "d \<le> 2147483646"
  shows "encl (iv_div (iv_scale 73 (drop_bit 12 (d - 1), drop_bit 12 (d - 1) + 2)) 20)
           ((real_of_int d - 1) / 2147483646 * radius)
         \<and> 0 \<le> fst (iv_div (iv_scale 73 (drop_bit 12 (d - 1), drop_bit 12 (d - 1) + 2)) 20)"
proof -
  let ?n = "d - 1"
  have b: "real_of_int (drop_bit 12 ?n) \<le> real_of_int ?n / 4096"
    "real_of_int ?n / 4096 \<le> real_of_int (drop_bit 12 ?n) + 1"
    using drop_bit_bounds [of 12 ?n] by simp_all
  have n: "0 \<le> real_of_int ?n" "real_of_int ?n \<le> 2147483646" using assms by simp_all
  have 1: "real_of_int ?n / 4096 \<le> real_of_int ?n / 1073741823 * 262144"
    using n by (simp add: field_simps)
  have 2: "real_of_int ?n / 1073741823 * 262144 \<le> real_of_int ?n / 4096 + 1"
    using n by (simp add: field_simps)
  have "real_of_int (drop_bit 12 ?n) \<le> real_of_int ?n / 1073741823 * 262144"
    using b(1) 1 by linarith
  moreover have "real_of_int ?n / 1073741823 * 262144 \<le> real_of_int (drop_bit 12 ?n) + 2"
    using b(2) 2 by linarith
  then have "real_of_int ?n / 1073741823 * 262144 \<le> real_of_int (drop_bit 12 ?n + 2)"
    by (simp only: of_int_add of_int_numeral)
  ultimately have e: "encl (drop_bit 12 ?n, drop_bit 12 ?n + 2) (real_of_int ?n / 1073741823)"
    unfolding encl_def fst_conv snd_conv by blast
  have v: "real_of_int 73 * (real_of_int ?n / 1073741823) / real_of_int 20
             = (real_of_int d - 1) / 2147483646 * radius"
    by (simp add: radius_def)
  have "encl (iv_div (iv_scale 73 (drop_bit 12 ?n, drop_bit 12 ?n + 2)) 20)
          (real_of_int 73 * (real_of_int ?n / 1073741823) / real_of_int 20)"
    by (intro encl_div encl_scale e) simp_all
  then have 3: "encl (iv_div (iv_scale 73 (drop_bit 12 ?n, drop_bit 12 ?n + 2)) 20)
          ((real_of_int d - 1) / 2147483646 * radius)"
    by (simp only: v)
  have "0 \<le> drop_bit 12 ?n" using assms by simp
  then have 4: "0 \<le> fst (iv_div (iv_scale 73 (drop_bit 12 ?n, drop_bit 12 ?n + 2)) 20)"
    by (simp add: iv_div_def iv_scale_def pos_imp_zdiv_nonneg_iff)
  show ?thesis using 3 4 by blast
qed

lemma encl_pi: "encl (823549, 823550) pi"
  using pi_bounds by (simp add: encl_def)

lemma quarter_turns:
  "sin (pi / 2 + x) = cos x" "cos (pi / 2 + x) = - sin x"
  "sin (2 * (pi / 2) + x) = - sin x" "cos (2 * (pi / 2) + x) = - cos x"
  "sin (3 * (pi / 2) + x) = - cos x" "cos (3 * (pi / 2) + x) = sin x"
  "sin (4 * (pi / 2) + x) = sin x" "cos (4 * (pi / 2) + x) = cos x"
proof -
  show "sin (pi / 2 + x) = cos x" "cos (pi / 2 + x) = - sin x"
    by (simp_all add: sin_add cos_add)
  show "sin (2 * (pi / 2) + x) = - sin x" "cos (2 * (pi / 2) + x) = - cos x"
    by (simp_all add: sin_add cos_add)
  have 3: "3 * (pi / 2) + x = (pi / 2 + x) + pi" by simp
  have "sin (pi / 2 + x) = cos x" "cos (pi / 2 + x) = - sin x"
    by (simp_all add: sin_add cos_add)
  then show "sin (3 * (pi / 2) + x) = - cos x" "cos (3 * (pi / 2) + x) = sin x"
    unfolding 3 by (simp_all only: sin_periodic_pi cos_periodic_pi minus_minus)
  have 4: "4 * (pi / 2) + x = x + 2 * pi" by simp
  show "sin (4 * (pi / 2) + x) = sin x" "cos (4 * (pi / 2) + x) = cos x"
    unfolding 4 by simp_all
qed

subsection \<open>The outcome of the test\<close>

lemma settle_bounds:
  assumes "encl az Z" "encl ax X" "b = 64 \<or> b = 55"
  shows "10 * snd az < 11 * 262144 \<and> 10 * snd ax < b * 262144
           \<longrightarrow> Z < 1.1 \<and> X < real_of_int b / 10"
    and "11 * 262144 \<le> 10 * fst az \<or> b * 262144 \<le> 10 * fst ax
           \<longrightarrow> \<not> (Z < 1.1 \<and> X < real_of_int b / 10)"
proof -
  have z: "real_of_int (fst az) \<le> Z * 262144" "Z * 262144 \<le> real_of_int (snd az)"
    and x: "real_of_int (fst ax) \<le> X * 262144" "X * 262144 \<le> real_of_int (snd ax)"
    using assms(1,2) by (simp_all add: encl_def)
  show "10 * snd az < 11 * 262144 \<and> 10 * snd ax < b * 262144
           \<longrightarrow> Z < 1.1 \<and> X < real_of_int b / 10"
  proof
    assume a: "10 * snd az < 11 * 262144 \<and> 10 * snd ax < b * 262144"
    then have "real_of_int (10 * snd az) < real_of_int (11 * 262144)"
      "real_of_int (10 * snd ax) < real_of_int (b * 262144)"
      by (simp_all only: of_int_less_iff)
    then have "10 * real_of_int (snd az) < 11 * 262144"
      "10 * real_of_int (snd ax) < real_of_int b * 262144" by simp_all
    with z x show "Z < 1.1 \<and> X < real_of_int b / 10" by (simp add: field_simps)
  qed
  show "11 * 262144 \<le> 10 * fst az \<or> b * 262144 \<le> 10 * fst ax
           \<longrightarrow> \<not> (Z < 1.1 \<and> X < real_of_int b / 10)"
  proof
    assume a: "11 * 262144 \<le> 10 * fst az \<or> b * 262144 \<le> 10 * fst ax"
    then have "real_of_int (11 * 262144) \<le> real_of_int (10 * fst az)
               \<or> real_of_int (b * 262144) \<le> real_of_int (10 * fst ax)"
      by (simp only: of_int_le_iff)
    then have "11 * 262144 \<le> 10 * real_of_int (fst az)
               \<or> real_of_int b * 262144 \<le> 10 * real_of_int (fst ax)" by simp
    with z x show "\<not> (Z < 1.1 \<and> X < real_of_int b / 10)" by (auto simp: field_simps)
  qed
qed

text \<open>
  The angle is \<open>q\<close> quarter turns and a rest \<open>p\<close> or \<open>- p\<close>, with \<open>sin p\<close> and \<open>cos p\<close> not
  negative. Then \<open>\<bar>z\<bar>\<close> and \<open>\<bar>x\<bar>\<close> are the distance times \<open>sin p\<close> or \<open>cos p\<close>, and the sign of
  \<open>x\<close> is known.
\<close>

lemma on_road_reduced:
  assumes q: "q = 0 \<or> q = 1 \<or> q = 2 \<or> q = 3 \<or> q = (4::int)"
    and th: "th = real_of_int q * (pi / 2) + (if e < (0::int) then - p else p)"
    and nn: "0 \<le> sin p" "0 \<le> cos p" "0 \<le> D"
  shows "on_road (cos th * D) (sin th * D)
           \<longleftrightarrow> D * (if even q then sin p else cos p) < 1.1
               \<and> D * (if even q then cos p else sin p)
                   < real_of_int (if q = 0 \<or> q = 4 \<or> (q = 1 \<and> e < 0) \<or> (q = 3 \<and> 0 \<le> e)
                                  then 64 else 55) / 10"
proof -
  have m: "0 \<le> D * sin p" "0 \<le> D * cos p" using nn by simp_all
  consider "q = 0" | "q = 1" | "q = 2" | "q = 3" | "q = 4" using q by blast
  then show ?thesis
  proof cases
    case 1
    then have "sin th = (if e < 0 then - sin p else sin p)" "cos th = cos p"
      using th by simp_all
    then show ?thesis using 1 m by (auto simp: on_road_def mult.commute abs_if)
  next
    case 2
    then have "sin th = cos p" "cos th = (if e < 0 then sin p else - sin p)"
      using th quarter_turns(1,2) [of "if e < 0 then - p else p"] by simp_all
    then show ?thesis using 2 m by (auto simp: on_road_def mult.commute abs_if)
  next
    case 3
    then have "sin th = (if e < 0 then sin p else - sin p)" "cos th = - cos p"
      using th quarter_turns(3,4) [of "if e < 0 then - p else p"] by simp_all
    then show ?thesis using 3 m by (auto simp: on_road_def mult.commute abs_if)
  next
    case 4
    then have "sin th = - cos p" "cos th = (if e < 0 then - sin p else sin p)"
      using th quarter_turns(5,6) [of "if e < 0 then - p else p"] by simp_all
    then show ?thesis using 4 m by (auto simp: on_road_def mult.commute abs_if)
  next
    case 5
    then have "sin th = (if e < 0 then - sin p else sin p)" "cos th = cos p"
      using th quarter_turns(7,8) [of "if e < 0 then - p else p"] by simp_all
    then show ?thesis using 5 m by (auto simp: on_road_def mult.commute abs_if)
  qed
qed

lemma settle_sound:
  assumes "settle q e ds s c = Some b"
    and q: "q = 0 \<or> q = 1 \<or> q = 2 \<or> q = 3 \<or> q = 4"
    and th: "th = real_of_int q * (pi / 2) + (if e < 0 then - p else p)"
    and d: "encl ds D" "0 \<le> fst ds"
    and s: "encl s (sin p)" "0 \<le> fst s"
    and c: "encl c (cos p)" "0 \<le> fst c"
  shows "on_road (cos th * D) (sin th * D) = b"
proof -
  define mz where "mz = (if even q then s else c)"
  define mx where "mx = (if even q then c else s)"
  define bd :: int where
    "bd = (if q = 0 \<or> q = 4 \<or> (q = 1 \<and> e < 0) \<or> (q = 3 \<and> 0 \<le> e) then 64 else 55)"
  have nn: "0 \<le> sin p" "0 \<le> cos p" "0 \<le> D"
    using encl_nonneg [OF s] encl_nonneg [OF c] encl_nonneg [OF d] by simp_all
  have ez: "encl (iv_mul ds mz) (D * (if even q then sin p else cos p))"
    unfolding mz_def using d s c by (auto intro: encl_mul)
  have ex: "encl (iv_mul ds mx) (D * (if even q then cos p else sin p))"
    unfolding mx_def using d s c by (auto intro: encl_mul)
  have bd: "bd = 64 \<or> bd = 55" by (simp add: bd_def)
  note r = on_road_reduced [OF q th nn, folded bd_def]
  note k = settle_bounds [OF ez ex bd]
  have "settle q e ds s c =
     (if 10 * snd (iv_mul ds mz) < 11 * 262144 \<and> 10 * snd (iv_mul ds mx) < bd * 262144
      then Some True
      else if 11 * 262144 \<le> 10 * fst (iv_mul ds mz) \<or> bd * 262144 \<le> 10 * fst (iv_mul ds mx)
      then Some False else None)"
    by (simp add: settle_def Let_def mz_def mx_def bd_def)
  with assms(1) show ?thesis using r k by (auto split: if_splits)
qed

lemma quadrant_cases: "quadrant k = 0 \<or> quadrant k = 1 \<or> quadrant k = 2 \<or> quadrant k = 3 \<or> quadrant k = 4"
  by (simp add: quadrant_def)

text \<open>What \<open>road_test\<close> answers is the outcome of the test in the loop.\<close>

lemma road_test_sound:
  assumes "road_test a d = Some b"
  shows "on_road (grass_x ((real_of_int a - 1) / 2147483646) ((real_of_int d - 1) / 2147483646))
           (grass_z ((real_of_int a - 1) / 2147483646) ((real_of_int d - 1) / 2147483646)) = b"
proof -
  define q where "q = quadrant (4 * (a - 1))"
  define e where "e = 4 * (a - 1) - q * 2147483646"
  define t where "t = (drop_bit 14 \<bar>e\<bar>, drop_bit 14 \<bar>e\<bar> + 2)"
  define f where "f = iv_mul (823549, 823550) t"
  define y where "y = iv_mul f f"
  define ds where "ds = iv_div (iv_scale 73 (drop_bit 12 (d - 1), drop_bit 12 (d - 1) + 2)) 20"
  define p where "p = pi * (real_of_int \<bar>e\<bar> / (2 * 2147483646))"
  define D where "D = (real_of_int d - 1) / 2147483646 * radius"
  define th where "th = (real_of_int a - 1) / 2147483646 * pi * 2"
  have u: "road_test a d =
     (if 1 \<le> a \<and> a \<le> 2147483646 \<and> 1 \<le> d \<and> d \<le> 2147483646 \<and> snd f \<le> 209715
         then (case sin_iv f y of None \<Rightarrow> None
               | Some s \<Rightarrow> (case cos_iv y of None \<Rightarrow> None
                            | Some c \<Rightarrow> settle q e ds s c))
         else None)"
    unfolding road_test_def Let_def ds_def y_def f_def t_def e_def q_def by (rule refl)
  from assms u obtain s c where r: "1 \<le> a" "a \<le> 2147483646" "1 \<le> d" "d \<le> 2147483646"
    "snd f \<le> 209715" and sv: "sin_iv f y = Some s" and cv: "cos_iv y = Some c"
    and st: "settle q e ds s c = Some b"
    by (auto split: if_splits option.splits)
  have qc: "q = 0 \<or> q = 1 \<or> q = 2 \<or> q = 3 \<or> q = 4"
    unfolding q_def by (rule quadrant_cases)
  have eb: "\<bar>e\<bar> \<le> 4 * 2147483646" using qc r(1,2) by (auto simp: e_def)
  have et: "encl t (real_of_int \<bar>e\<bar> / (2 * 2147483646))"
    unfolding t_def using eb by (intro encl_rest) simp_all
  have t0: "0 \<le> fst t" by (simp add: t_def)
  have ef: "encl f p"
    unfolding f_def p_def using encl_pi et t0 by (intro encl_mul) simp_all
  have f0: "0 \<le> fst f"
    unfolding f_def iv_mul_def using t0 by simp
  have ey: "encl y (p * p)" unfolding y_def using ef f0 by (intro encl_mul)
  have "p * 262144 \<le> real_of_int (snd f)" using ef by (simp add: encl_def)
  also have "\<dots> \<le> 209715" using r(5) by simp
  finally have p8: "p \<le> 4 / 5" by simp
  note ss = sin_iv_sound [OF sv ef ey p8]
  note cs = cos_iv_sound [OF cv ey _ p8]
  have ed: "encl ds D" "0 \<le> fst ds"
    unfolding ds_def D_def using encl_distance [OF r(3,4)] by simp_all
  have "real_of_int \<bar>e\<bar> = (if e < 0 then - real_of_int e else real_of_int e)" by simp
  then have "(if e < 0 then - p else p) = pi * (real_of_int e / (2 * 2147483646))"
    by (simp add: p_def)
  also have "\<dots> = th - real_of_int q * (pi / 2)"
    by (simp add: e_def th_def field_simps)
  finally have tq: "th = real_of_int q * (pi / 2) + (if e < 0 then - p else p)" by simp
  have "on_road (cos th * D) (sin th * D) = b"
    using ss cs by (intro settle_sound [OF st qc tq ed]) simp_all
  then show ?thesis by (simp add: grass_x_def grass_z_def th_def D_def)
qed

section \<open>The loop of the grass on integers\<close>

lemma rand_lcg: "0 \<le> v \<Longrightarrow> rand v = ((real_of_int (lcg v) - 1) / 2147483646, lcg v)"
  by (simp add: rand_def lcg_def js_rem_def Let_def)

lemma lcg_nonneg: "0 \<le> lcg v"
  by (simp add: lcg_def)

text \<open>One iteration of the loop, with the four draws written with \<open>lcg\<close>.\<close>

lemma grass_body_lcg:
  assumes "0 \<le> rng s"
  shows "grass_body s =
     (let a = lcg (rng s); d = lcg a;
          x = grass_x ((real_of_int a - 1) / 2147483646) ((real_of_int d - 1) / 2147483646);
          z = grass_z ((real_of_int a - 1) / 2147483646) ((real_of_int d - 1) / 2147483646)
      in if on_road x z then s\<lparr> rng := d \<rparr>
         else s\<lparr> rng := lcg (lcg d), filled := filled s + 1,
                 matrices := (matrices s)[filled s := Some
                   \<lparr> inst_position = Vector3 x 0.07 z,
                     inst_scale = Vector3 ((0.6 + (real_of_int (lcg d) - 1) / 2147483646 * 0.8) * 0.8)
                        (0.6 + (real_of_int (lcg d) - 1) / 2147483646 * 0.8)
                        ((0.6 + (real_of_int (lcg d) - 1) / 2147483646 * 0.8) * 0.8),
                     inst_rotation_y = (real_of_int (lcg (lcg d)) - 1) / 2147483646 * pi \<rparr>] \<rparr>)"
  using assms by (simp add: grass_body_def rand_lcg lcg_nonneg Let_def)

lemma walk_step_sim:
  assumes "0 \<le> rng s" "walk_step (rng s, filled s) = Some p"
  shows "rng (grass_body s) = fst p \<and> filled (grass_body s) = snd p"
proof -
  let ?a = "lcg (rng s)"
  let ?d = "lcg ?a"
  obtain b where b: "road_test ?a ?d = Some b"
    using assms(2) by (auto simp: walk_step_def Let_def split: option.splits)
  note t = road_test_sound [OF b]
  show ?thesis
  proof (cases b)
    case True
    then have "p = (?d, filled s)" using assms(2) b by (simp add: walk_step_def Let_def)
    then show ?thesis using t True by (simp add: grass_body_lcg [OF assms(1)] Let_def)
  next
    case False
    then have "p = (lcg (lcg ?d), Suc (filled s))"
      using assms(2) b by (simp add: walk_step_def Let_def)
    then show ?thesis using t False by (simp add: grass_body_lcg [OF assms(1)] Let_def)
  qed
qed

lemma rng_grass_body_nonneg: "0 \<le> rng s \<Longrightarrow> 0 \<le> rng (grass_body s)"
  by (simp add: grass_body_lcg Let_def lcg_nonneg)

lemma walk_sim:
  assumes "0 \<le> rng s" "walk n (rng s, filled s) = Some p"
  shows "rng ((grass_body ^^ n) s) = fst p \<and> filled ((grass_body ^^ n) s) = snd p"
  using assms
proof (induction n arbitrary: s)
  case 0
  then show ?case by auto
next
  case (Suc n)
  from Suc.prems(2) obtain p' where 1: "walk_step (rng s, filled s) = Some p'"
    and 2: "walk n p' = Some p"
    by (auto split: option.splits)
  note w = walk_step_sim [OF Suc.prems(1) 1]
  have 3: "walk n (rng (grass_body s), filled (grass_body s)) = Some p"
    using 2 w by simp
  have "0 \<le> rng (grass_body s)" using Suc.prems(1) by (rule rng_grass_body_nonneg)
  from Suc.IH [OF this 3] show ?case by (simp add: funpow_swap1)
qed

lemma walk_trans:
  "walk m p = Some p' \<Longrightarrow> walk n p' = Some p'' \<Longrightarrow> walk (m + n) p = Some p''"
  by (induction m arbitrary: p) (auto split: option.splits)

lemma filled_grass_body: "filled s \<le> filled (grass_body s)"
  by (simp add: grass_body_def Let_def split_beta)

lemma filled_funpow_mono: "j \<le> n \<Longrightarrow> filled ((grass_body ^^ j) s) \<le> filled ((grass_body ^^ n) s)"
proof (induction n)
  case 0
  then show ?case by simp
next
  case (Suc n)
  show ?case
  proof (cases "j = Suc n")
    case True
    then show ?thesis by simp
  next
    case False
    then have "filled ((grass_body ^^ j) s) \<le> filled ((grass_body ^^ n) s)"
      using Suc by simp
    also have "\<dots> \<le> filled ((grass_body ^^ Suc n) s)"
      using filled_grass_body [of "(grass_body ^^ n) s"] by simp
    finally show ?thesis .
  qed
qed

text \<open>
  The loop returns after \<open>n\<close> iterations when the counter is below \<open>instances\<close> before each
  of them and not after the last.
\<close>

lemma grass_loop_funpow:
  assumes "\<forall>j < n. filled ((grass_body ^^ j) s) < instances"
    and "\<not> filled ((grass_body ^^ n) s) < instances"
  shows "grass_loop instances s = Some ((grass_body ^^ n) s)"
  using assms
proof (induction n arbitrary: s)
  case 0
  then show ?case by (simp add: grass_loop.simps)
next
  case (Suc n)
  have 0: "filled s < instances" using Suc.prems(1) by auto
  have 1: "\<forall>j < n. filled ((grass_body ^^ j) (grass_body s)) < instances"
    using Suc.prems(1) by (auto simp: funpow_swap1 dest: spec [of _ "Suc _"])
  have 2: "\<not> filled ((grass_body ^^ n) (grass_body s)) < instances"
    using Suc.prems(2) by (simp add: funpow_swap1)
  have "grass_loop instances s = grass_loop instances (grass_body s)"
    using 0 by (subst grass_loop.simps) simp
  also have "\<dots> = Some ((grass_body ^^ n) (grass_body s))" using 1 2 by (rule Suc.IH)
  finally show ?case by (simp add: funpow_swap1)
qed

section \<open>The invariant of the loop of the grass\<close>

lemma createRandom_42: "createRandom 42 = 42"
  by (simp add: createRandom_def js_rem_def)

lemma grass_init_inv: "grass_inv n (grass_init n)"
  by (simp add: grass_inv_def grass_init_def createRandom_42)

lemma grass_distance:
  assumes "0 \<le> r2" "r2 < 1"
  shows "sqrt ((grass_x r1 r2)\<^sup>2 + (grass_z r1 r2)\<^sup>2) \<le> 7.3"
proof -
  have "(grass_x r1 r2)\<^sup>2 + (grass_z r1 r2)\<^sup>2
          = ((cos (r1 * pi * 2))\<^sup>2 + (sin (r1 * pi * 2))\<^sup>2) * (r2 * radius)\<^sup>2"
    unfolding grass_x_def grass_z_def by (simp only: power_mult_distrib distrib_right)
  also have "\<dots> = (r2 * radius)\<^sup>2" by simp
  finally have "sqrt ((grass_x r1 r2)\<^sup>2 + (grass_z r1 r2)\<^sup>2) = \<bar>r2 * radius\<bar>"
    by simp
  also have "\<dots> \<le> 7.3" using assms by (simp add: radius_def abs_mult)
  finally show ?thesis .
qed

lemma lcg_range:
  assumes "1 \<le> v" "v \<le> 2147483646"
  shows "1 \<le> lcg v \<and> lcg v \<le> 2147483646"
  using rand_keeps_range [OF assms] assms by (simp add: rand_lcg)

lemma grass_body_inv:
  assumes "grass_inv n s" "filled s < n"
  shows "grass_inv n (grass_body s)"
proof -
  have v: "1 \<le> rng s" "rng s \<le> 2147483646" and l: "length (matrices s) = n"
    and w: "\<forall>i < filled s. \<exists>m. matrices s ! i = Some m \<and> placed_ok m"
    and u: "\<forall>i. filled s \<le> i \<and> i < n \<longrightarrow> matrices s ! i = None"
    using assms(1) by (simp_all add: grass_inv_def)
  define a where "a = lcg (rng s)"
  define d where "d = lcg a"
  define x where "x = grass_x ((real_of_int a - 1) / 2147483646) ((real_of_int d - 1) / 2147483646)"
  define z where "z = grass_z ((real_of_int a - 1) / 2147483646) ((real_of_int d - 1) / 2147483646)"
  have a: "1 \<le> a \<and> a \<le> 2147483646" unfolding a_def using v by (rule lcg_range)
  then have d: "1 \<le> d \<and> d \<le> 2147483646" unfolding d_def by (intro lcg_range) simp_all
  then have d3: "1 \<le> lcg d \<and> lcg d \<le> 2147483646" by (intro lcg_range) simp_all
  then have d4: "1 \<le> lcg (lcg d) \<and> lcg (lcg d) \<le> 2147483646" by (intro lcg_range) simp_all
  have r: "sqrt (x\<^sup>2 + z\<^sup>2) \<le> 7.3"
    unfolding x_def z_def using d by (intro grass_distance) simp_all
  have b: "grass_body s =
     (if on_road x z then s\<lparr> rng := d \<rparr>
         else s\<lparr> rng := lcg (lcg d), filled := filled s + 1,
                 matrices := (matrices s)[filled s := Some
                   \<lparr> inst_position = Vector3 x 0.07 z,
                     inst_scale = Vector3 ((0.6 + (real_of_int (lcg d) - 1) / 2147483646 * 0.8) * 0.8)
                        (0.6 + (real_of_int (lcg d) - 1) / 2147483646 * 0.8)
                        ((0.6 + (real_of_int (lcg d) - 1) / 2147483646 * 0.8) * 0.8),
                     inst_rotation_y = (real_of_int (lcg (lcg d)) - 1) / 2147483646 * pi \<rparr>] \<rparr>)"
    using v unfolding x_def z_def d_def a_def by (subst grass_body_lcg) (simp_all add: Let_def)
  show ?thesis
  proof (cases "on_road x z")
    case True
    then show ?thesis using assms(1) d by (simp add: b grass_inv_def)
  next
    case False
    then have p: "placed_ok \<lparr> inst_position = Vector3 x 0.07 z,
                     inst_scale = Vector3 ((0.6 + (real_of_int (lcg d) - 1) / 2147483646 * 0.8) * 0.8)
                        (0.6 + (real_of_int (lcg d) - 1) / 2147483646 * 0.8)
                        ((0.6 + (real_of_int (lcg d) - 1) / 2147483646 * 0.8) * 0.8),
                     inst_rotation_y = (real_of_int (lcg (lcg d)) - 1) / 2147483646 * pi \<rparr>"
      using r by (simp add: placed_ok_def on_road_def)
    show ?thesis
      unfolding grass_inv_def
      using False d4 assms(2) l w u p
      by (auto simp: b nth_list_update less_Suc_eq)
  qed
qed

lemma grass_loop_inv:
  assumes "grass_loop n s = Some s'" "grass_inv n s"
  shows "grass_inv n s' \<and> filled s' = n"
proof -
  have "grass_inv n s \<longrightarrow> grass_inv n s' \<and> filled s' = n"
  proof (rule grass_loop.raw_induct
      [where P = "\<lambda>n s s'. grass_inv n s \<longrightarrow> grass_inv n s' \<and> filled s' = n",
        OF _ assms(1)])
    fix f n s s'
    assume ih: "\<And>a b y. f a b = Some y \<Longrightarrow> grass_inv a b \<longrightarrow> grass_inv a y \<and> filled y = a"
      and eq: "(if filled s < n then f n (grass_body s) else Some s) = Some s'"
    show "grass_inv n s \<longrightarrow> grass_inv n s' \<and> filled s' = n"
    proof (cases "filled s < n")
      case True
      then have "f n (grass_body s) = Some s'" using eq by simp
      from ih [OF this] True show ?thesis by (auto intro: grass_body_inv)
    next
      case False
      then have "s' = s" using eq by simp
      then show ?thesis using False by (auto simp: grass_inv_def)
    qed
  qed
  then show ?thesis using assms(2) by simp
qed

section \<open>Running the loop of the grass\<close>

text \<open>
  The contents of the generator and the counter after every 32 iterations, from the seed
  \<open>42\<close> on. Each line is computed with \<open>walk\<close>, that is with \<open>road_test\<close>.
\<close>

lemma walk_0: "walk 32 (42, 0) = Some (737546509, 17)"
  by code_simp

lemma walk_32: "walk 32 (737546509, 17) = Some (1301924799, 40)"
  by code_simp

lemma walk_64: "walk 32 (1301924799, 40) = Some (1698409980, 63)"
  by code_simp

lemma walk_96: "walk 32 (1698409980, 63) = Some (1952810231, 88)"
  by code_simp

lemma walk_128: "walk 32 (1952810231, 88) = Some (897139652, 111)"
  by code_simp

lemma walk_160: "walk 32 (897139652, 111) = Some (301546269, 130)"
  by code_simp

lemma walk_192: "walk 32 (301546269, 130) = Some (1051081424, 148)"
  by code_simp

lemma walk_224: "walk 32 (1051081424, 148) = Some (474177339, 170)"
  by code_simp

lemma walk_256: "walk 32 (474177339, 170) = Some (218428599, 182)"
  by code_simp

lemma walk_288: "walk 32 (218428599, 182) = Some (950476369, 203)"
  by code_simp

lemma walk_320: "walk 32 (950476369, 203) = Some (952603129, 225)"
  by code_simp

lemma walk_352: "walk 32 (952603129, 225) = Some (743227510, 244)"
  by code_simp

lemma walk_384: "walk 32 (743227510, 244) = Some (1475986909, 268)"
  by code_simp

lemma walk_416: "walk 32 (1475986909, 268) = Some (1824233008, 293)"
  by code_simp

lemma walk_448: "walk 32 (1824233008, 293) = Some (235614839, 314)"
  by code_simp

lemma walk_480: "walk 32 (235614839, 314) = Some (1009880471, 332)"
  by code_simp

lemma walk_512: "walk 32 (1009880471, 332) = Some (86285360, 354)"
  by code_simp

lemma walk_544: "walk 32 (86285360, 354) = Some (205963335, 376)"
  by code_simp

lemma walk_576: "walk 32 (205963335, 376) = Some (2013184082, 400)"
  by code_simp

lemma walk_608: "walk 32 (2013184082, 400) = Some (355058630, 422)"
  by code_simp

lemma walk_640: "walk 32 (355058630, 422) = Some (321552324, 445)"
  by code_simp

lemma walk_672: "walk 32 (321552324, 445) = Some (603413329, 464)"
  by code_simp

lemma walk_704: "walk 32 (603413329, 464) = Some (49858794, 483)"
  by code_simp

lemma walk_736: "walk 32 (49858794, 483) = Some (547210444, 503)"
  by code_simp

lemma walk_768: "walk 32 (547210444, 503) = Some (98501678, 523)"
  by code_simp

lemma walk_800: "walk 32 (98501678, 523) = Some (87809616, 540)"
  by code_simp

lemma walk_832: "walk 32 (87809616, 540) = Some (961371884, 559)"
  by code_simp

lemma walk_864: "walk 32 (961371884, 559) = Some (258189298, 581)"
  by code_simp

lemma walk_896: "walk 32 (258189298, 581) = Some (404563644, 599)"
  by code_simp

lemma walk_928: "walk_step (404563644, 599) = Some (1486126056, 600)"
  by code_simp

lemma walk_to_928: "walk 928 (42, 0) = Some (404563644, 599)"
proof -
  note w1 = walk_trans [OF walk_0 walk_32]
  note w2 = walk_trans [OF w1 walk_64]
  note w3 = walk_trans [OF w2 walk_96]
  note w4 = walk_trans [OF w3 walk_128]
  note w5 = walk_trans [OF w4 walk_160]
  note w6 = walk_trans [OF w5 walk_192]
  note w7 = walk_trans [OF w6 walk_224]
  note w8 = walk_trans [OF w7 walk_256]
  note w9 = walk_trans [OF w8 walk_288]
  note w10 = walk_trans [OF w9 walk_320]
  note w11 = walk_trans [OF w10 walk_352]
  note w12 = walk_trans [OF w11 walk_384]
  note w13 = walk_trans [OF w12 walk_416]
  note w14 = walk_trans [OF w13 walk_448]
  note w15 = walk_trans [OF w14 walk_480]
  note w16 = walk_trans [OF w15 walk_512]
  note w17 = walk_trans [OF w16 walk_544]
  note w18 = walk_trans [OF w17 walk_576]
  note w19 = walk_trans [OF w18 walk_608]
  note w20 = walk_trans [OF w19 walk_640]
  note w21 = walk_trans [OF w20 walk_672]
  note w22 = walk_trans [OF w21 walk_704]
  note w23 = walk_trans [OF w22 walk_736]
  note w24 = walk_trans [OF w23 walk_768]
  note w25 = walk_trans [OF w24 walk_800]
  note w26 = walk_trans [OF w25 walk_832]
  note w27 = walk_trans [OF w26 walk_864]
  note w28 = walk_trans [OF w27 walk_896]
  show ?thesis using w28 by simp
qed

lemma walk_to_929: "walk 929 (42, 0) = Some (1486126056, 600)"
proof -
  have "walk 1 (404563644, 599) = Some (1486126056, 600)" by (simp add: walk_928)
  from walk_trans [OF walk_to_928 this] show ?thesis by simp
qed
text \<open>The generator alone: the content after 3058 draws.\<close>

lemma lcg_0: "(lcg ^^ 139) 42 = 1421286654"
  by code_simp

lemma lcg_139: "(lcg ^^ 139) 1421286654 = 1980706864"
  by code_simp

lemma lcg_278: "(lcg ^^ 139) 1980706864 = 2075896366"
  by code_simp

lemma lcg_417: "(lcg ^^ 139) 2075896366 = 445629267"
  by code_simp

lemma lcg_556: "(lcg ^^ 139) 445629267 = 1023376189"
  by code_simp

lemma lcg_695: "(lcg ^^ 139) 1023376189 = 1404469043"
  by code_simp

lemma lcg_834: "(lcg ^^ 139) 1404469043 = 1523469055"
  by code_simp

lemma lcg_973: "(lcg ^^ 139) 1523469055 = 1961044002"
  by code_simp

lemma lcg_1112: "(lcg ^^ 139) 1961044002 = 916929507"
  by code_simp

lemma lcg_1251: "(lcg ^^ 139) 916929507 = 1938135417"
  by code_simp

lemma lcg_1390: "(lcg ^^ 139) 1938135417 = 1630303877"
  by code_simp

lemma lcg_1529: "(lcg ^^ 139) 1630303877 = 602568151"
  by code_simp

lemma lcg_1668: "(lcg ^^ 139) 602568151 = 1754409142"
  by code_simp

lemma lcg_1807: "(lcg ^^ 139) 1754409142 = 1618913669"
  by code_simp

lemma lcg_1946: "(lcg ^^ 139) 1618913669 = 1090579749"
  by code_simp

lemma lcg_2085: "(lcg ^^ 139) 1090579749 = 248194099"
  by code_simp

lemma lcg_2224: "(lcg ^^ 139) 248194099 = 1896529091"
  by code_simp

lemma lcg_2363: "(lcg ^^ 139) 1896529091 = 1487383797"
  by code_simp

lemma lcg_2502: "(lcg ^^ 139) 1487383797 = 261682544"
  by code_simp

lemma lcg_2641: "(lcg ^^ 139) 261682544 = 761363641"
  by code_simp

lemma lcg_2780: "(lcg ^^ 139) 761363641 = 783994496"
  by code_simp

lemma lcg_2919: "(lcg ^^ 139) 783994496 = 1486126056"
  by code_simp

lemma lcg_3058: "(lcg ^^ 3058) 42 = 1486126056"
proof -
  have c: "(f ^^ m) x = y \<Longrightarrow> (f ^^ n) y = z \<Longrightarrow> (f ^^ (m + n)) x = z" for f :: "int \<Rightarrow> int" and m n x y z
    by (simp add: funpow_add add.commute [of m n])
  note d1 = c [OF lcg_0 lcg_139]
  note d2 = c [OF d1 lcg_278]
  note d3 = c [OF d2 lcg_417]
  note d4 = c [OF d3 lcg_556]
  note d5 = c [OF d4 lcg_695]
  note d6 = c [OF d5 lcg_834]
  note d7 = c [OF d6 lcg_973]
  note d8 = c [OF d7 lcg_1112]
  note d9 = c [OF d8 lcg_1251]
  note d10 = c [OF d9 lcg_1390]
  note d11 = c [OF d10 lcg_1529]
  note d12 = c [OF d11 lcg_1668]
  note d13 = c [OF d12 lcg_1807]
  note d14 = c [OF d13 lcg_1946]
  note d15 = c [OF d14 lcg_2085]
  note d16 = c [OF d15 lcg_2224]
  note d17 = c [OF d16 lcg_2363]
  note d18 = c [OF d17 lcg_2502]
  note d19 = c [OF d18 lcg_2641]
  note d20 = c [OF d19 lcg_2780]
  note d21 = c [OF d20 lcg_2919]
  show ?thesis using d21 by simp
qed
lemma grass_run:
  "rng ((grass_body ^^ 928) (grass_init 600)) = 404563644
   \<and> filled ((grass_body ^^ 928) (grass_init 600)) = 599
   \<and> rng ((grass_body ^^ 929) (grass_init 600)) = 1486126056
   \<and> filled ((grass_body ^^ 929) (grass_init 600)) = 600"
proof -
  have 0: "0 \<le> rng (grass_init 600)" by (simp add: grass_init_def createRandom_42)
  have i: "(rng (grass_init 600), filled (grass_init 600)) = (42, 0)"
    by (simp add: grass_init_def createRandom_42)
  have 1: "walk 928 (rng (grass_init 600), filled (grass_init 600)) = Some (404563644, 599)"
    unfolding i by (rule walk_to_928)
  have 2: "walk 929 (rng (grass_init 600), filled (grass_init 600)) = Some (1486126056, 600)"
    unfolding i by (rule walk_to_929)
  show ?thesis using walk_sim [OF 0 1] walk_sim [OF 0 2] by simp
qed

text \<open>The loop of the grass returns, after 929 iterations.\<close>

lemma grass_loop_returns:
  "grass_loop 600 (grass_init 600) = Some ((grass_body ^^ 929) (grass_init 600))"
proof (rule grass_loop_funpow)
  show "\<forall>j < 929. filled ((grass_body ^^ j) (grass_init 600)) < 600"
  proof (intro allI impI)
    fix j :: nat
    assume "j < 929"
    then have "j \<le> 928" by simp
    then have "filled ((grass_body ^^ j) (grass_init 600))
                 \<le> filled ((grass_body ^^ 928) (grass_init 600))"
      by (rule filled_funpow_mono)
    then show "filled ((grass_body ^^ j) (grass_init 600)) < 600"
      using grass_run by simp
  qed
  show "\<not> filled ((grass_body ^^ 929) (grass_init 600)) < 600"
    using grass_run by simp
qed

text \<open>
  C5. When the loop of the grass returns, every slot of the mesh holds an instance at
  height \<open>0.07\<close>, at most \<open>7.3\<close> from the origin in the plane of \<open>x\<close> and \<open>z\<close>, that does
  not satisfy \<open>\<bar>z\<bar> < 1.1\<close>, \<open>x > -5.5\<close> and \<open>x < 6.4\<close> together; with 600 instances the loop
  does return.
\<close>

theorem grass_placements:
  assumes "grass_loop n (grass_init n) = Some s"
  shows "filled s = n \<and> length (matrices s) = n
         \<and> (\<forall>i < n. \<exists>m. matrices s ! i = Some m
                \<and> vy (inst_position m) = 0.07
                \<and> sqrt ((vx (inst_position m))\<^sup>2 + (vz (inst_position m))\<^sup>2) \<le> 7.3
                \<and> \<not> (\<bar>vz (inst_position m)\<bar> < 1.1 \<and> vx (inst_position m) > - 5.5
                      \<and> vx (inst_position m) < 6.4))"
proof -
  have "grass_inv n s \<and> filled s = n"
    using assms grass_init_inv by (rule grass_loop_inv)
  then show ?thesis by (auto simp: grass_inv_def placed_ok_def)
qed

theorem grass_placements_witness:
  "GrassField = Some ((grass_body ^^ 929) (grass_init 600))
   \<and> filled ((grass_body ^^ 929) (grass_init 600)) = 600
   \<and> length (matrices ((grass_body ^^ 929) (grass_init 600))) = 600
   \<and> (\<exists>m. matrices ((grass_body ^^ 929) (grass_init 600)) ! 599 = Some m
         \<and> vy (inst_position m) = 0.07
         \<and> sqrt ((vx (inst_position m))\<^sup>2 + (vz (inst_position m))\<^sup>2) \<le> 7.3
         \<and> \<not> (\<bar>vz (inst_position m)\<bar> < 1.1 \<and> vx (inst_position m) > - 5.5
               \<and> vx (inst_position m) < 6.4))"
proof -
  note g = grass_placements [OF grass_loop_returns]
  have "(599::nat) < 600" by simp
  with g show ?thesis unfolding GrassField_def using grass_loop_returns by blast
qed

text \<open>
  C6. The loop of the grass, drawing from the generator seeded with \<open>42\<close>, returns: it
  accepts the 600th placement in its 929th iteration, after 3058 draws, and then every one
  of the 600 slots of the mesh has been written.
\<close>

theorem grass_loop_terminates:
  "GrassField = Some ((grass_body ^^ 929) (grass_init 600))
   \<and> filled ((grass_body ^^ 928) (grass_init 600)) = 599
   \<and> filled ((grass_body ^^ 929) (grass_init 600)) = 600
   \<and> rng ((grass_body ^^ 929) (grass_init 600)) = (lcg ^^ 3058) (createRandom 42)
   \<and> length (matrices ((grass_body ^^ 929) (grass_init 600))) = 600
   \<and> None \<notin> set (matrices ((grass_body ^^ 929) (grass_init 600)))"
proof -
  let ?s = "(grass_body ^^ 929) (grass_init 600)"
  have i: "grass_inv 600 ?s \<and> filled ?s = 600"
    using grass_loop_returns grass_init_inv by (rule grass_loop_inv)
  then have l: "length (matrices ?s) = 600"
    and w: "\<forall>i < 600. matrices ?s ! i \<noteq> None"
    by (auto simp: grass_inv_def)
  have "None \<notin> set (matrices ?s)"
    using l w by (auto simp: in_set_conv_nth)
  moreover have "(lcg ^^ 3058) (createRandom 42) = 1486126056"
    unfolding createRandom_42 by (rule lcg_3058)
  ultimately show ?thesis
    using grass_loop_returns grass_run l by (simp add: GrassField_def)
qed

end
